theory Spec2Isabelle
  imports Main
begin

section \<open>Python strings\<close>

text \<open>
  A Python \<open>str\<close> is modelled as a \<open>string\<close>, one \<open>char\<close> per code point, for the
  code points below 256. \<open>is_space\<close> is \<open>str.isspace\<close> on one code point of that
  range: TAB to CR, FS to US, the space, NEL and the no-break space.
\<close>

definition is_space :: "char \<Rightarrow> bool" where
  "is_space c =
     (let n = (of_char c :: nat)
      in (9 \<le> n \<and> n \<le> 13) \<or> (28 \<le> n \<and> n \<le> 32) \<or> n = 133 \<or> n = 160)"

definition lstrip :: "string \<Rightarrow> string" where
  "lstrip s = dropWhile is_space s"

definition rstrip :: "string \<Rightarrow> string" where
  "rstrip s = rev (dropWhile is_space (rev s))"

text \<open>\<open>s.strip()\<close>\<close>

definition strip :: "string \<Rightarrow> string" where
  "strip s = rstrip (lstrip s)"

text \<open>\<open>s.startswith(p)\<close>\<close>

definition startswith :: "string \<Rightarrow> string \<Rightarrow> bool" where
  "startswith s p = (take (length p) s = p)"

text \<open>
  \<open>s.split()\<close> with no separator: the maximal runs of non-whitespace, in order.
  \<open>split_word w s\<close> scans \<open>s\<close> with the run read so far in \<open>w\<close>.
\<close>

fun split_word :: "string \<Rightarrow> string \<Rightarrow> string list" where
  "split_word w [] = (if w = [] then [] else [w])"
| "split_word w (c # cs) =
     (if is_space c then (if w = [] then [] else [w]) @ split_word [] cs
      else split_word (w @ [c]) cs)"

definition split_ws :: "string \<Rightarrow> string list" where
  "split_ws s = split_word [] s"

text \<open>\<open>sep.join(xs)\<close>\<close>

fun join :: "string \<Rightarrow> string list \<Rightarrow> string" where
  "join sep [] = []"
| "join sep [x] = x"
| "join sep (x # y # ys) = x @ sep @ join sep (y # ys)"

section \<open>The name splitter\<close>

definition honorifics :: "string list" where
  "honorifics =
     [''Prof'', ''A/Prof'', ''Assoc Prof'', ''Dr'', ''Mr'', ''Mrs'', ''Ms'', ''Miss'']"

text \<open>
  The \<open>for honorific in honorifics\<close> loop of \<open>parse_name_and_honorific\<close>, on the
  stripped \<open>full_name\<close>: the first honorific that matches returns, and the loop
  running out returns the name with no honorific.
\<close>

fun parse_loop :: "string list \<Rightarrow> string \<Rightarrow> string \<times> string" where
  "parse_loop [] full_name = (full_name, '''')"
| "parse_loop (honorific # rest) full_name =
     (if startswith full_name (honorific @ '' '')
      then (strip (drop (length honorific) full_name), honorific)
      else parse_loop rest full_name)"

definition parse_name_and_honorific :: "string \<Rightarrow> string \<times> string" where
  "parse_name_and_honorific full_name = parse_loop honorifics (strip full_name)"

section \<open>Parsed pages\<close>

text \<open>
  A parsed page is the tree BeautifulSoup builds: a \<open>Tag\<close> has a name, its attributes
  (name and value, as written in the markup) and its children; a \<open>NavigableString\<close>
  is a piece of text (a \<open>CData\<close> section is read like one). The soup itself is the root
  tag, named \<open>[document]\<close>.

  The parser gives some strings a class of their own: a comment, a declaration, a doctype
  and a processing instruction, and the text inside a \<open>script\<close>, \<open>style\<close>, \<open>template\<close>,
  \<open>rt\<close> or \<open>rp\<close> element, which is a string of the class of that element. They are the
  \<open>OtherString\<close> nodes; \<open>get_text\<close> leaves them out of the text of a heading, a link
  or a card (see \<open>strings\<close>).
\<close>

datatype string_class =
  Comment | Declaration | Doctype | ProcessingInstruction
  | Script | Stylesheet | TemplateString | RubyTextString | RubyParenthesisString

datatype node =
  Tag string "(string \<times> string) list" "node list"
  | NavigableString string
  | OtherString string_class string

text \<open>\<open>tag.descendants\<close>: everything below a tag, in document order.\<close>

fun descendants :: "node \<Rightarrow> node list" where
  "descendants (NavigableString s) = []"
| "descendants (OtherString k s) = []"
| "descendants (Tag n a cs) = concat (map (\<lambda>c. c # descendants c) cs)"

text \<open>
  \<open>find_previous\<close> reads where an element stands in the document, so an element found
  by \<open>soup.find_all\<close> is kept with its \<open>previous_elements\<close>: all that the parser
  read before it, the nearest first, the soup last.
\<close>

type_synonym element = "node list \<times> node"

fun elements :: "node list \<Rightarrow> node list \<Rightarrow> element list" where
  "elements prev [] = []"
| "elements prev (x # xs) = (prev, x) # elements (x # prev) xs"

text \<open>\<open>tag.get(key)\<close>, \<open>None\<close> when the attribute is absent.\<close>

fun get_attr :: "node \<Rightarrow> string \<Rightarrow> string option" where
  "get_attr (Tag n a cs) key = map_of a key"
| "get_attr (NavigableString s) key = None"
| "get_attr (OtherString k s) key = None"

text \<open>
  The filters of the searches: a tag name, \<open>class_=c\<close> (one of the whitespace-separated
  classes of the tag is \<open>c\<close>), and \<open>key=True\<close> (the tag has the attribute).
\<close>

fun is_tag :: "string \<Rightarrow> node \<Rightarrow> bool" where
  "is_tag name (Tag n a cs) = (n = name)"
| "is_tag name (NavigableString s) = False"
| "is_tag name (OtherString k s) = False"

definition has_class :: "string \<Rightarrow> node \<Rightarrow> bool" where
  "has_class c n = (case get_attr n ''class'' of None \<Rightarrow> False | Some v \<Rightarrow> c \<in> set (split_ws v))"

definition has_attr :: "string \<Rightarrow> node \<Rightarrow> bool" where
  "has_attr key n = (get_attr n key \<noteq> None)"

text \<open>
  \<open>soup.find_all(...)\<close> with the position of each match, \<open>tag.find_all(...)\<close> and
  \<open>tag.find(...)\<close> below a tag, \<open>element.find_previous(...)\<close>.
\<close>

definition find_all_elements :: "node \<Rightarrow> (node \<Rightarrow> bool) \<Rightarrow> element list" where
  "find_all_elements soup P = filter (\<lambda>e. P (snd e)) (elements [soup] (descendants soup))"

definition find_all :: "node \<Rightarrow> (node \<Rightarrow> bool) \<Rightarrow> node list" where
  "find_all tag P = filter P (descendants tag)"

definition find_tag :: "node \<Rightarrow> (node \<Rightarrow> bool) \<Rightarrow> node option" where
  "find_tag tag P = List.find P (descendants tag)"

definition find_previous :: "element \<Rightarrow> (node \<Rightarrow> bool) \<Rightarrow> node option" where
  "find_previous e P = List.find P (fst e)"

text \<open>
  The strings \<open>get_text\<close> reads below a tag, in document order (\<open>_all_strings\<close> of
  BeautifulSoup 4.11 and later): those whose class is one of the tag's
  \<open>interesting_string_types\<close>. For a \<open>script\<close>, \<open>style\<close>, \<open>template\<close>, \<open>rt\<close> or \<open>rp\<close> tag
  that is the class of its own text (\<open>string_container\<close>), for every other tag it is
  \<open>NavigableString\<close> and \<open>CData\<close>: the text of a script, a style sheet or a comment inside
  a heading or a link is not part of the heading's or the link's text.
  \<open>tag.get_text()\<close> concatenates the strings, \<open>tag.get_text(strip=True)\<close> strips each one
  and drops those left empty.
\<close>

definition string_container :: "string \<Rightarrow> string_class option" where
  "string_container name =
     (if name = ''rt'' then Some RubyTextString
      else if name = ''rp'' then Some RubyParenthesisString
      else if name = ''style'' then Some Stylesheet
      else if name = ''script'' then Some Script
      else if name = ''template'' then Some TemplateString
      else None)"

fun interesting_string :: "string_class option \<Rightarrow> node \<Rightarrow> string list" where
  "interesting_string None (NavigableString s) = [s]"
| "interesting_string (Some k') (NavigableString s) = []"
| "interesting_string None (OtherString k s) = []"
| "interesting_string (Some k') (OtherString k s) = (if k = k' then [s] else [])"
| "interesting_string types (Tag n a cs) = []"

fun strings :: "node \<Rightarrow> string list" where
  "strings (Tag n a cs) =
     concat (map (interesting_string (string_container n)) (descendants (Tag n a cs)))"
| "strings (NavigableString s) = [s]"
| "strings (OtherString k s) = []"

definition get_text :: "node \<Rightarrow> string" where
  "get_text tag = concat (strings tag)"

definition get_text_strip :: "node \<Rightarrow> string" where
  "get_text_strip tag = concat (filter (\<lambda>s. s \<noteq> []) (map strip (strings tag)))"

section \<open>Person records\<close>

text \<open>
  A person record is a Python dict from field names to strings, kept in insertion
  order as \<open>json.dump\<close> writes it. \<open>setitem d k v\<close> is \<open>d[k] = v\<close>.
\<close>

type_synonym dict = "(string \<times> string) list"

fun setitem :: "dict \<Rightarrow> string \<Rightarrow> string \<Rightarrow> dict" where
  "setitem [] k v = [(k, v)]"
| "setitem ((k', v') # d) k v = (if k' = k then (k, v) # d else (k', v') # setitem d k v)"

section \<open>The card extractor\<close>

text \<open>The section header before a card (lines 121 to 126): the new \<open>current_category\<close>.\<close>

definition section_category :: "element \<Rightarrow> string \<Rightarrow> string" where
  "section_category card_tag current_category =
     (case find_previous card_tag (\<lambda>n. is_tag ''h2'' n \<and> has_attr ''id'' n) of
        None \<Rightarrow> current_category
      | Some prev_section \<Rightarrow>
          (let section_text = get_text_strip prev_section
           in if section_text \<noteq> [] \<and> section_text \<notin> set [''Featured content'', ''Site footer'']
              then section_text else current_category))"

text \<open>The profile URL of a raw link target (lines 143 to 148).\<close>

definition profile_url :: "string \<Rightarrow> string" where
  "profile_url href =
     (if startswith href ''http'' then href
      else if startswith href ''/'' then ''https://cis.unimelb.edu.au'' @ href
      else ''https://cis.unimelb.edu.au/'' @ href)"

text \<open>Name, honorific and profile URL from the header of a card (lines 133 to 154).\<close>

definition name_fields :: "node \<Rightarrow> dict \<Rightarrow> dict" where
  "name_fields header person_data =
     (case find_tag header (is_tag ''a'') of
        Some name_link \<Rightarrow>
          (let full_name = join '' '' (split_ws (get_text name_link));
               (name, honorific) = parse_name_and_honorific full_name;
               person_data = setitem person_data ''name'' name;
               person_data = setitem person_data ''honorific'' honorific;
               href = (case get_attr name_link ''href'' of Some v \<Rightarrow> v | None \<Rightarrow> '''')
           in setitem person_data ''profile_url'' (profile_url href))
      | None \<Rightarrow>
          (let full_name = get_text_strip header;
               (name, honorific) = parse_name_and_honorific full_name;
               person_data = setitem person_data ''name'' name;
               person_data = setitem person_data ''honorific'' honorific
           in setitem person_data ''profile_url'' ''N/A''))"

text \<open>The title of a card (lines 159 to 163).\<close>

definition title_field :: "node \<Rightarrow> dict \<Rightarrow> dict" where
  "title_field card_tag person_data =
     (case find_tag card_tag (\<lambda>n. is_tag ''div'' n \<and> has_class ''card__sub-heading'' n) of
        Some sub_heading \<Rightarrow> setitem person_data ''title'' (get_text_strip sub_heading)
      | None \<Rightarrow> setitem person_data ''title'' ''N/A'')"

text \<open>
  The \<open>for card in cards\<close> loop: the category is updated first, a card with no header
  is skipped, any other card appends its record.
\<close>

fun extract_loop :: "element list \<Rightarrow> string \<Rightarrow> dict list \<Rightarrow> dict list" where
  "extract_loop [] current_category people = people"
| "extract_loop (card_tag # cards) current_category people =
     (let current_category = section_category card_tag current_category
      in case find_tag (snd card_tag) (\<lambda>n. is_tag ''h3'' n \<and> has_class ''card__header'' n) of
           None \<Rightarrow> extract_loop cards current_category people
         | Some header \<Rightarrow>
             (let person_data = name_fields header [];
                  person_data = title_field (snd card_tag) person_data;
                  person_data = setitem person_data ''category'' current_category
              in extract_loop cards current_category (people @ [person_data])))"

text \<open>\<open>default_category or 'General'\<close>: an empty default counts as none.\<close>

definition extract_people_data :: "node \<Rightarrow> string option \<Rightarrow> dict list" where
  "extract_people_data soup default_category =
     (let cards = find_all_elements soup (\<lambda>n. is_tag ''div'' n \<and> has_class ''card'' n);
          current_category =
            (case default_category of
               None \<Rightarrow> ''General''
             | Some c \<Rightarrow> if c = [] then ''General'' else c)
      in extract_loop cards current_category [])"

section \<open>The category link finder\<close>

text \<open>\<open>s.rstrip('/')\<close>\<close>

definition rstrip_slash :: "string \<Rightarrow> string" where
  "rstrip_slash s = rev (dropWhile (\<lambda>c. c = CHR ''/'') (rev s))"

text \<open>The absolute URL of a category link (lines 190 to 195).\<close>

definition full_url :: "string \<Rightarrow> string \<Rightarrow> string" where
  "full_url base_url href =
     (if startswith href ''/'' then rstrip_slash base_url @ href
      else if startswith href ''http'' then href
      else rstrip_slash base_url @ ''/'' @ href)"

fun links_loop :: "node list \<Rightarrow> string \<Rightarrow> (string \<times> string) list \<Rightarrow> (string \<times> string) list" where
  "links_loop [] base_url category_links = category_links"
| "links_loop (link # links) base_url category_links =
     (case find_tag link (is_tag ''h3'') of
        None \<Rightarrow> links_loop links base_url category_links
      | Some h3 \<Rightarrow>
          (let category_name = get_text_strip h3;
               href = (case get_attr link ''href'' of Some v \<Rightarrow> v | None \<Rightarrow> '''')
           in links_loop links base_url (category_links @ [(category_name, full_url base_url href)])))"

fun pathfinders_loop :: "node list \<Rightarrow> string \<Rightarrow> (string \<times> string) list \<Rightarrow> (string \<times> string) list" where
  "pathfinders_loop [] base_url category_links = category_links"
| "pathfinders_loop (pathfinder # pathfinders) base_url category_links =
     pathfinders_loop pathfinders base_url
       (links_loop (find_all pathfinder (\<lambda>n. is_tag ''a'' n \<and> has_attr ''href'' n)) base_url category_links)"

definition find_category_links :: "node \<Rightarrow> string \<Rightarrow> (string \<times> string) list" where
  "find_category_links soup base_url =
     pathfinders_loop (find_all soup (\<lambda>n. is_tag ''ul'' n \<and> has_class ''pathfinder-3'' n)) base_url []"

section \<open>The JSON file\<close>

text \<open>
  \<open>json.dump(data, f, indent=2, ensure_ascii=False)\<close> on a list of dicts of strings,
  as the encoder of the standard library writes it. A string goes between double
  quotes (code point 0x22) with the backslash (0x5C), the double quote and the control
  characters escaped; with \<open>ensure_ascii=False\<close> every other character is written
  as it is.
\<close>

definition hex_digit :: "nat \<Rightarrow> char" where
  "hex_digit n = ''0123456789abcdef'' ! n"

definition escape_char :: "char \<Rightarrow> string" where
  "escape_char c =
     (if c = CHR 0x5C then [CHR 0x5C, CHR 0x5C]
      else if c = CHR 0x22 then [CHR 0x5C, CHR 0x22]
      else if c = CHR 0x08 then [CHR 0x5C, CHR ''b'']
      else if c = CHR 0x0C then [CHR 0x5C, CHR ''f'']
      else if c = CHR 0x0A then [CHR 0x5C, CHR ''n'']
      else if c = CHR 0x0D then [CHR 0x5C, CHR ''r'']
      else if c = CHR 0x09 then [CHR 0x5C, CHR ''t'']
      else if (of_char c :: nat) < 32
      then [CHR 0x5C, CHR ''u'', CHR ''0'', CHR ''0'',
            hex_digit ((of_char c :: nat) div 16), hex_digit ((of_char c :: nat) mod 16)]
      else [c])"

definition encode_basestring :: "string \<Rightarrow> string" where
  "encode_basestring s = [CHR 0x22] @ concat (map escape_char s) @ [CHR 0x22]"

text \<open>A line break and the indentation of a nesting level, two spaces a level.\<close>

definition newline_indent :: "nat \<Rightarrow> string" where
  "newline_indent level = CHR 0x0A # replicate (2 * level) CHR '' ''"

text \<open>A dict inside the list (nesting level 1), and the list (level 0).\<close>

definition iterencode_dict :: "dict \<Rightarrow> string" where
  "iterencode_dict dct =
     (if dct = [] then ''{}''
      else ''{'' @ newline_indent 2
        @ join ('','' @ newline_indent 2)
            (map (\<lambda>(key, v). encode_basestring key @ '': '' @ encode_basestring v) dct)
        @ newline_indent 1 @ ''}'')"

definition iterencode_list :: "dict list \<Rightarrow> string" where
  "iterencode_list lst =
     (if lst = [] then ''[]''
      else ''['' @ newline_indent 1
        @ join ('','' @ newline_indent 1) (map iterencode_dict lst)
        @ newline_indent 0 @ '']'')"

text \<open>
  The file system is a map from file names to the text of the files; the UTF-8
  encoding of the text is not modelled. \<open>save_to_json\<close> replaces the file.
\<close>

definition save_to_json :: "dict list \<Rightarrow> string \<Rightarrow> (string \<rightharpoonup> string) \<Rightarrow> (string \<rightharpoonup> string)" where
  "save_to_json data filename files = files(filename \<mapsto> iterencode_list data)"

section \<open>The page fetcher\<close>

text \<open>
  The web is outside the program. A fetch attempt is a strategy and a URL; the world
  answers an attempt, given the attempts made before it, with a parsed page or an
  exception. \<open>SELENIUM_AVAILABLE\<close> is the flag the imports set. Every fetching function
  takes the log of the attempts made so far and returns it extended, so the number
  and order of the attempts can be read off.
\<close>

datatype strategy = Requests | Selenium

datatype exn = FetchError string | ImportError string

type_synonym attempt = "strategy \<times> string"

record world =
  SELENIUM_AVAILABLE :: bool
  respond :: "attempt list \<Rightarrow> attempt \<Rightarrow> exn + node"

definition fetch_page_requests :: "world \<Rightarrow> string \<Rightarrow> attempt list \<Rightarrow> (exn + node) \<times> attempt list" where
  "fetch_page_requests w url log = (respond w log (Requests, url), log @ [(Requests, url)])"

definition fetch_page_selenium :: "world \<Rightarrow> string \<Rightarrow> attempt list \<Rightarrow> (exn + node) \<times> attempt list" where
  "fetch_page_selenium w url log =
     (if \<not> SELENIUM_AVAILABLE w
      then (Inl (ImportError ''Selenium not installed. Install with: pip install selenium''), log)
      else (respond w log (Selenium, url), log @ [(Selenium, url)]))"

definition fetch_page :: "world \<Rightarrow> string \<Rightarrow> bool \<Rightarrow> attempt list \<Rightarrow> (exn + node) \<times> attempt list" where
  "fetch_page w url use_selenium log =
     (if use_selenium then
        (if \<not> SELENIUM_AVAILABLE w
         then (Inl (ImportError ''Selenium not installed. Install with: pip install selenium''), log)
         else fetch_page_selenium w url log)
      else
        (case fetch_page_requests w url log of
           (Inr soup, log') \<Rightarrow> (Inr soup, log')
         | (Inl e, log') \<Rightarrow>
             if SELENIUM_AVAILABLE w then fetch_page_selenium w url log' else (Inl e, log')))"

section \<open>The crawl orchestrator\<close>

text \<open>
  The \<open>try\<close> block of \<open>main\<close> that fetches the landing page, with its handler
  (lines 230 to 248): the result, the \<open>use_selenium\<close> flag as the block leaves it, and
  the log. Writing the page source with \<open>save_html\<close>, the CSV file, the messages
  printed and the pause between requests are not modelled.
\<close>

definition fetch_main_page :: "world \<Rightarrow> bool \<Rightarrow> attempt list \<Rightarrow> (exn + node) \<times> bool \<times> attempt list" where
  "fetch_main_page w use_selenium log =
     (let use_selenium = (if use_selenium \<and> \<not> SELENIUM_AVAILABLE w then False else use_selenium)
      in case fetch_page w ''https://cis.unimelb.edu.au/people'' use_selenium log of
           (Inr soup, log') \<Rightarrow> (Inr soup, use_selenium, log')
         | (Inl e, log') \<Rightarrow>
             if \<not> use_selenium \<and> SELENIUM_AVAILABLE w
             then (case fetch_page w ''https://cis.unimelb.edu.au/people'' True log' of
                     (r, log'') \<Rightarrow> (r, use_selenium, log''))
             else (Inl e, use_selenium, log'))"

text \<open>
  The loop over the category links (lines 262 to 272): an exception of the body is
  caught and the loop goes on with the next link.
\<close>

fun scrape_categories :: "world \<Rightarrow> bool \<Rightarrow> (string \<times> string) list \<Rightarrow> dict list \<Rightarrow> attempt list \<Rightarrow> dict list \<times> attempt list" where
  "scrape_categories w use_selenium [] all_people log = (all_people, log)"
| "scrape_categories w use_selenium ((category_name, category_url) # category_links) all_people log =
     (case fetch_page w category_url use_selenium log of
        (Inl e, log') \<Rightarrow> scrape_categories w use_selenium category_links all_people log'
      | (Inr category_soup, log') \<Rightarrow>
          (let category_people = extract_people_data category_soup (Some category_name)
           in scrape_categories w use_selenium category_links (all_people @ category_people) log'))"

text \<open>
  \<open>main\<close>: the state is the log of fetch attempts and the file system; the result is
  the exception that ends the run, or \<open>all_people\<close>.
\<close>

record state =
  fetch_log :: "attempt list"
  file_store :: "string \<rightharpoonup> string"

definition main :: "world \<Rightarrow> bool \<Rightarrow> bool \<Rightarrow> state \<Rightarrow> (exn + dict list) \<times> state" where
  "main w use_selenium scrape_subpages s =
     (case fetch_main_page w use_selenium (fetch_log s) of
        (Inl e, use_selenium, log1) \<Rightarrow> (Inl e, s\<lparr>fetch_log := log1\<rparr>)
      | (Inr soup, use_selenium, log1) \<Rightarrow>
          (let main_people = extract_people_data soup None;
               all_people = [] @ main_people;
               (all_people, log2) =
                 (if scrape_subpages
                  then scrape_categories w use_selenium
                         (find_category_links soup ''https://cis.unimelb.edu.au'') all_people log1
                  else (all_people, log1));
               files' = (if all_people \<noteq> []
                         then save_to_json all_people ''people_data.json'' (file_store s)
                         else file_store s)
           in (Inr all_people, \<lparr>fetch_log = log2, file_store = files'\<rparr>)))"

section \<open>Reading the JSON file back\<close>

text \<open>
  \<open>json.load\<close>, the decoder of the standard library, for the documents
  \<open>save_to_json\<close> can write: an array of objects whose values are strings. \<open>None\<close>
  is a \<open>JSONDecodeError\<close>, or a document of another shape (numbers, literals, nested
  values, code points from 256 on), which this model does not read.

  \<open>skip_ws\<close> is the decoder's \<open>WHITESPACE\<close> match, \<open>scanstring\<close> reads a string from
  after its opening quote to its closing quote, in strict mode.
\<close>

definition skip_ws :: "string \<Rightarrow> string" where
  "skip_ws s = dropWhile (\<lambda>c. c = CHR '' '' \<or> c = CHR 0x09 \<or> c = CHR 0x0A \<or> c = CHR 0x0D) s"

definition hex_value :: "char \<Rightarrow> nat option" where
  "hex_value c =
     (let n = (of_char c :: nat)
      in if 48 \<le> n \<and> n \<le> 57 then Some (n - 48)
         else if 97 \<le> n \<and> n \<le> 102 then Some (n - 87)
         else if 65 \<le> n \<and> n \<le> 70 then Some (n - 55)
         else None)"

definition decode_uXXXX :: "char \<Rightarrow> char \<Rightarrow> char \<Rightarrow> char \<Rightarrow> nat option" where
  "decode_uXXXX a b c d =
     (case (hex_value a, hex_value b, hex_value c, hex_value d) of
        (Some x3, Some x2, Some x1, Some x0) \<Rightarrow> Some (((x3 * 16 + x2) * 16 + x1) * 16 + x0)
      | _ \<Rightarrow> None)"

definition backslash :: "char \<Rightarrow> char option" where
  "backslash esc =
     (if esc = CHR 0x22 then Some (CHR 0x22)
      else if esc = CHR 0x5C then Some (CHR 0x5C)
      else if esc = CHR ''/'' then Some (CHR ''/'')
      else if esc = CHR ''b'' then Some (CHR 0x08)
      else if esc = CHR ''f'' then Some (CHR 0x0C)
      else if esc = CHR ''n'' then Some (CHR 0x0A)
      else if esc = CHR ''r'' then Some (CHR 0x0D)
      else if esc = CHR ''t'' then Some (CHR 0x09)
      else None)"

fun scanstring :: "string \<Rightarrow> string \<Rightarrow> (string \<times> string) option" where
  "scanstring acc [] = None"
| "scanstring acc (c # cs) =
     (if c = CHR 0x22 then Some (acc, cs)
      else if c = CHR 0x5C then
        (case cs of
           [] \<Rightarrow> None
         | esc # cs1 \<Rightarrow>
             if esc = CHR ''u'' then
               (case cs1 of
                  x3 # x2 # x1 # x0 # cs2 \<Rightarrow>
                    (case decode_uXXXX x3 x2 x1 x0 of
                       None \<Rightarrow> None
                     | Some uni \<Rightarrow>
                         if uni < 256 then scanstring (acc @ [char_of uni]) cs2 else None)
                | _ \<Rightarrow> None)
             else (case backslash esc of
                     None \<Rightarrow> None
                   | Some ch \<Rightarrow> scanstring (acc @ [ch]) cs1))
      else if (of_char c :: nat) < 32 then None
      else scanstring (acc @ [c]) cs)"

lemma scanstring_shorter: "scanstring acc s = Some (x, rest) \<Longrightarrow> length rest < length s"
proof (induction s arbitrary: acc rule: length_induct)
  case (1 s)
  show ?case
  proof (cases s)
    case Nil
    with "1.prems" show ?thesis by simp
  next
    case (Cons c cs)
    note s = this
    have IH: "\<And>ys acc'. length ys < length s \<Longrightarrow> scanstring acc' ys = Some (x, rest) \<Longrightarrow> length rest < length ys"
      using "1.IH" by blast
    show ?thesis
    proof (cases "c = CHR 0x22")
      case True
      with "1.prems" s show ?thesis by simp
    next
      case nq: False
      show ?thesis
      proof (cases "c = CHR 0x5C")
        case bs: True
        show ?thesis
        proof (cases cs)
          case Nil
          with "1.prems" s nq bs show ?thesis by simp
        next
          case (Cons esc cs1)
          note cs = this
          show ?thesis
          proof (cases "esc = CHR ''u''")
            case True
            then have "\<exists>cs2 (uni::nat). length cs2 < length cs1 \<and> scanstring (acc @ [char_of uni]) cs2 = Some (x, rest)"
              using "1.prems" s nq bs cs
              apply (auto split: list.splits option.splits if_splits)
              subgoal for x3 x2 x1 x0 cs2 uni
                by (rule exI[of _ cs2]) auto
              done
            then obtain cs2 and uni :: nat where cs1: "length cs2 < length cs1"
              and r: "scanstring (acc @ [char_of uni]) cs2 = Some (x, rest)" by blast
            have "length rest < length cs2" using IH[of cs2, OF _ r] s cs cs1 by simp
            then show ?thesis using s cs cs1 by simp
          next
            case False
            then obtain ch where r: "scanstring (acc @ [ch]) cs1 = Some (x, rest)"
              using "1.prems" s nq bs cs by (auto split: option.splits)
            have "length rest < length cs1" using IH[of cs1, OF _ r] s cs by simp
            then show ?thesis using s cs by simp
          qed
        qed
      next
        case False
        then have r: "scanstring (acc @ [c]) cs = Some (x, rest)"
          using "1.prems" s nq by (simp split: if_splits)
        have "length rest < length cs" using IH[of cs, OF _ r] s by simp
        then show ?thesis using s by simp
      qed
    qed
  qed
qed

lemma skip_ws_shorter: "length (skip_ws s) \<le> length s"
  by (simp add: skip_ws_def length_dropWhile_le)

definition parse_pair :: "string \<Rightarrow> ((string \<times> string) \<times> string) option" where
  "parse_pair s =
     (case scanstring [] s of
        None \<Rightarrow> None
      | Some (key, s1) \<Rightarrow>
          (case skip_ws s1 of
             [] \<Rightarrow> None
           | c # s2 \<Rightarrow>
               if c \<noteq> CHR '':'' then None
               else (case skip_ws s2 of
                       [] \<Rightarrow> None
                     | q # s3 \<Rightarrow>
                         if q \<noteq> CHR 0x22 then None
                         else (case scanstring [] s3 of
                                 None \<Rightarrow> None
                               | Some (v, s4) \<Rightarrow> Some ((key, v), skip_ws s4)))))"

lemma parse_pair_shorter: "parse_pair s = Some (kv, rest) \<Longrightarrow> length rest < length s"
proof -
  assume a: "parse_pair s = Some (kv, rest)"
  then obtain key s1 where s1: "scanstring [] s = Some (key, s1)"
    by (cases "scanstring [] s") (auto simp: parse_pair_def)
  with a obtain c s2 where s2: "skip_ws s1 = c # s2"
    by (cases "skip_ws s1") (auto simp: parse_pair_def)
  with a s1 have c: "c = CHR '':''"
    by (cases "c = CHR '':''") (auto simp: parse_pair_def)
  with a s1 s2 obtain q s3 where s3: "skip_ws s2 = q # s3"
    by (cases "skip_ws s2") (auto simp: parse_pair_def)
  with a s1 s2 c have q: "q = CHR 0x22"
    by (cases "q = CHR 0x22") (auto simp: parse_pair_def)
  with a s1 s2 c s3 obtain v s4 where s4: "scanstring [] s3 = Some (v, s4)" and r: "rest = skip_ws s4"
    by (cases "scanstring [] s3") (auto simp: parse_pair_def)
  have "length rest \<le> length s4" using r skip_ws_shorter by simp
  also have "\<dots> < length s3" using s4 by (rule scanstring_shorter)
  also have "\<dots> \<le> length s2" using skip_ws_shorter[of s2] s3 by simp
  also have "\<dots> \<le> length s1" using skip_ws_shorter[of s1] s2 by simp
  also have "\<dots> < length s" using s1 by (rule scanstring_shorter)
  finally show ?thesis .
qed

function parse_pairs :: "(string \<times> string) list \<Rightarrow> string \<Rightarrow> ((string \<times> string) list \<times> string) option" where
  "parse_pairs pairs s =
     (case parse_pair s of
        None \<Rightarrow> None
      | Some (kv, rest) \<Rightarrow>
          (case rest of
             [] \<Rightarrow> None
           | d # s5 \<Rightarrow>
               if d = CHR ''}'' then Some (pairs @ [kv], s5)
               else if d = CHR '','' then
                 (case skip_ws s5 of
                    [] \<Rightarrow> None
                  | q # s6 \<Rightarrow> if q = CHR 0x22 then parse_pairs (pairs @ [kv]) s6 else None)
               else None))"
  by pat_completeness auto
termination
proof (relation "measure (\<lambda>(pairs, s). length s)")
  show "wf (measure (\<lambda>(pairs, s). length s))" by simp
next
  fix pairs :: "(string \<times> string) list" and s x2 x and rest :: string and d s5 q s6
  assume "parse_pair s = Some x2" "(x, rest) = x2" "rest = d # s5" "skip_ws s5 = q # s6"
  then have "length (d # s5) < length s" and "length (q # s6) \<le> length s5"
    using parse_pair_shorter[of s x rest] skip_ws_shorter[of s5] by auto
  then show "((pairs @ [x], s6), (pairs, s)) \<in> measure (\<lambda>(pairs, s). length s)"
    by simp
qed

lemma parse_pairs_shorter: "parse_pairs pairs s = Some (ps, rest) \<Longrightarrow> length rest < length s"
proof (induction pairs s rule: parse_pairs.induct)
  case (1 pairs s)
  from "1.prems" obtain kv r where pp: "parse_pair s = Some (kv, r)"
    by (cases "parse_pair s") auto
  with "1.prems" obtain d s5 where r: "r = d # s5"
    by (cases r) auto
  have l: "length (d # s5) < length s" using parse_pair_shorter[OF pp] r by simp
  show ?case
  proof (cases "d = CHR ''}''")
    case True
    with "1.prems" pp r l show ?thesis by auto
  next
    case False
    with "1.prems" pp r have c: "d = CHR '',''" by (auto split: if_splits)
    with "1.prems" pp r False obtain q s6 where s6: "skip_ws s5 = q # s6"
      by (cases "skip_ws s5") auto
    with "1.prems" pp r False c have q: "q = CHR 0x22" and rec: "parse_pairs (pairs @ [kv]) s6 = Some (ps, rest)"
      by (auto split: if_splits)
    have "length rest < length s6"
      using "1.IH"[OF pp refl r False c s6 q rec] .
    also have "\<dots> < length s5" using skip_ws_shorter[of s5] s6 by simp
    finally show ?thesis using l by simp
  qed
qed

definition dict_of :: "(string \<times> string) list \<Rightarrow> dict" where
  "dict_of pairs = foldl (\<lambda>d (k, v). setitem d k v) [] pairs"

definition JSONObject :: "string \<Rightarrow> (dict \<times> string) option" where
  "JSONObject s =
     (case skip_ws s of
        [] \<Rightarrow> None
      | c # s1 \<Rightarrow>
          if c = CHR ''}'' then Some ([], s1)
          else if c = CHR 0x22 then
            (case parse_pairs [] s1 of
               None \<Rightarrow> None
             | Some (pairs, s2) \<Rightarrow> Some (dict_of pairs, s2))
          else None)"

lemma JSONObject_shorter: "JSONObject s = Some (obj, rest) \<Longrightarrow> length rest < length s"
proof -
  assume a: "JSONObject s = Some (obj, rest)"
  then obtain c s1 where s1: "skip_ws s = c # s1"
    by (cases "skip_ws s") (auto simp: JSONObject_def)
  have l: "length s1 < length s" using skip_ws_shorter[of s] s1 by simp
  show ?thesis
  proof (cases "c = CHR ''}''")
    case True
    with a s1 l show ?thesis by (auto simp: JSONObject_def)
  next
    case False
    with a s1 obtain pairs where "parse_pairs [] s1 = Some (pairs, rest)"
      by (auto simp: JSONObject_def split: if_splits option.splits)
    from parse_pairs_shorter[OF this] l show ?thesis by simp
  qed
qed

function parse_values :: "dict list \<Rightarrow> string \<Rightarrow> (dict list \<times> string) option" where
  "parse_values vals s =
     (case s of
        [] \<Rightarrow> None
      | c # s1 \<Rightarrow>
          if c \<noteq> CHR ''{'' then None
          else (case JSONObject s1 of
                  None \<Rightarrow> None
                | Some (v, s2) \<Rightarrow>
                    (case skip_ws s2 of
                       [] \<Rightarrow> None
                     | d # s3 \<Rightarrow>
                         if d = CHR '']'' then Some (vals @ [v], s3)
                         else if d = CHR '','' then parse_values (vals @ [v]) (skip_ws s3)
                         else None)))"
  by pat_completeness auto
termination
proof (relation "measure (\<lambda>(vals, s). length s)")
  show "wf (measure (\<lambda>(vals, s). length s))" by simp
next
  fix vals :: "dict list" and s :: string and c s1 x2 x s2 d s3
  assume "s = c # s1" "JSONObject s1 = Some x2" "(x, s2) = x2" "skip_ws s2 = d # s3"
  then have "length s2 < length s1" and "length (d # s3) \<le> length s2"
    using JSONObject_shorter[of s1 x s2] skip_ws_shorter[of s2] by auto
  then show "((vals @ [x], skip_ws s3), (vals, s)) \<in> measure (\<lambda>(vals, s). length s)"
    using skip_ws_shorter[of s3] \<open>s = c # s1\<close> by simp
qed

definition JSONArray :: "string \<Rightarrow> (dict list \<times> string) option" where
  "JSONArray s =
     (case skip_ws s of
        [] \<Rightarrow> None
      | c # s1 \<Rightarrow> if c = CHR '']'' then Some ([], s1) else parse_values [] (c # s1))"

definition json_load :: "string \<Rightarrow> dict list option" where
  "json_load s =
     (case skip_ws s of
        [] \<Rightarrow> None
      | c # s1 \<Rightarrow>
          if c \<noteq> CHR ''['' then None
          else (case JSONArray s1 of
                  None \<Rightarrow> None
                | Some (obj, rest) \<Rightarrow> if skip_ws rest = [] then Some obj else None))"

section \<open>The dashboard's loader\<close>

text \<open>
  \<open>pd.DataFrame(data)\<close> on a list of dicts: the columns are the keys in the order
  they are first seen, and each dict is one row, in order, with \<open>None\<close> (NaN) where
  it has no value for a column.
\<close>

datatype frame = DataFrame "string list" "string option list list"

fun unique_keys :: "string list \<Rightarrow> string list \<Rightarrow> string list" where
  "unique_keys seen [] = seen"
| "unique_keys seen (k # ks) = unique_keys (if k \<in> set seen then seen else seen @ [k]) ks"

definition data_frame :: "dict list \<Rightarrow> frame" where
  "data_frame data =
     (let columns = unique_keys [] (concat (map (map fst) data))
      in DataFrame columns (map (\<lambda>d. map (map_of d) columns) data))"

text \<open>
  \<open>load_data\<close> of the dashboard, on the JSON file. With no JSON file the loader turns
  to the CSV file or halts the page; that branch is not modelled and is the outcome
  \<open>NoJsonFile\<close>.
\<close>

datatype load_error = JSONDecodeError | NoJsonFile

definition load_data :: "(string \<rightharpoonup> string) \<Rightarrow> load_error + frame" where
  "load_data files =
     (case files ''people_data.json'' of
        None \<Rightarrow> Inl NoJsonFile
      | Some text \<Rightarrow>
          (case json_load text of
             None \<Rightarrow> Inl JSONDecodeError
           | Some data \<Rightarrow> Inr (data_frame data)))"

section \<open>Names for the statements\<close>

text \<open>
  Short names for terms of the extractor that the statements repeat: the filters of its
  searches, the \<open>full_name\<close> it reads from a header, the record it builds for a card,
  and the category fields of a list of records.
\<close>

abbreviation card_filter :: "node \<Rightarrow> bool" where
  "card_filter \<equiv> (\<lambda>n. is_tag ''div'' n \<and> has_class ''card'' n)"

abbreviation header_filter :: "node \<Rightarrow> bool" where
  "header_filter \<equiv> (\<lambda>n. is_tag ''h3'' n \<and> has_class ''card__header'' n)"

abbreviation section_filter :: "node \<Rightarrow> bool" where
  "section_filter \<equiv> (\<lambda>n. is_tag ''h2'' n \<and> has_attr ''id'' n)"

abbreviation full_name_of :: "node \<Rightarrow> string" where
  "full_name_of header \<equiv>
     (case find_tag header (is_tag ''a'') of
        Some name_link \<Rightarrow> join '' '' (split_ws (get_text name_link))
      | None \<Rightarrow> get_text_strip header)"

abbreviation person_record :: "element \<Rightarrow> node \<Rightarrow> string \<Rightarrow> dict" where
  "person_record card_tag header category \<equiv>
     setitem (title_field (snd card_tag) (name_fields header [])) ''category'' category"

abbreviation categories :: "dict list \<Rightarrow> string option list" where
  "categories people \<equiv> map (\<lambda>person. map_of person ''category'') people"

text \<open>One \<open>"key": "value"\<close> item of an object, as \<open>iterencode_dict\<close> writes it.\<close>

abbreviation json_item :: "string \<times> string \<Rightarrow> string" where
  "json_item \<equiv> (\<lambda>(key, v). encode_basestring key @ '': '' @ encode_basestring v)"

section \<open>The spec's absolute link targets\<close>

text \<open>
  Written from the spec's words, not from the code, to compare the two: the spec keeps a
  link target that "begins with a scheme". A scheme is a letter, then letters, digits,
  \<open>+\<close>, \<open>-\<close> or \<open>.\<close>, then a colon (RFC 3986).
\<close>

definition is_alpha :: "char \<Rightarrow> bool" where
  "is_alpha c = (let n = (of_char c :: nat) in (65 \<le> n \<and> n \<le> 90) \<or> (97 \<le> n \<and> n \<le> 122))"

definition is_scheme_char :: "char \<Rightarrow> bool" where
  "is_scheme_char c =
     (let n = (of_char c :: nat)
      in is_alpha c \<or> (48 \<le> n \<and> n \<le> 57) \<or> c = CHR ''+'' \<or> c = CHR ''-'' \<or> c = CHR ''.'')"

definition spec_begins_with_scheme :: "string \<Rightarrow> bool" where
  "spec_begins_with_scheme href =
     (case href of
        [] \<Rightarrow> False
      | c # cs \<Rightarrow>
          is_alpha c \<and> (case dropWhile is_scheme_char cs of [] \<Rightarrow> False | d # rest \<Rightarrow> d = CHR '':''))"

section \<open>Facts about the string functions\<close>

lemma rstrip_last: "s \<noteq> [] \<Longrightarrow> \<not> is_space (last s) \<Longrightarrow> rstrip s = s"
  by (cases s rule: rev_cases) (simp_all add: rstrip_def)

lemma lstrip_hd: "s \<noteq> [] \<Longrightarrow> \<not> is_space (hd s) \<Longrightarrow> lstrip s = s"
  by (cases s) (simp_all add: lstrip_def)

lemma strip_trimmed: "s \<noteq> [] \<Longrightarrow> \<not> is_space (hd s) \<Longrightarrow> \<not> is_space (last s) \<Longrightarrow> strip s = s"
  by (simp add: strip_def lstrip_hd rstrip_last)

lemma length_rstrip: "length (rstrip s) \<le> length s"
  using length_dropWhile_le[of is_space "rev s"] by (simp add: rstrip_def)

lemma length_lstrip: "length (lstrip s) \<le> length s"
  by (simp add: lstrip_def length_dropWhile_le)

lemma rstrip_fixed: "rstrip s = s \<Longrightarrow> s \<noteq> [] \<Longrightarrow> \<not> is_space (last s)"
proof (cases s rule: rev_cases)
  case Nil
  assume "s \<noteq> []" with Nil show ?thesis by simp
next
  case (snoc ys y)
  assume eq: "rstrip s = s"
  show ?thesis
  proof
    assume "is_space (last s)"
    with snoc have "rstrip s = rstrip ys" by (simp add: rstrip_def)
    then show False using eq snoc length_rstrip[of ys] by auto
  qed
qed

lemma strip_fixed_lstrip: "strip s = s \<Longrightarrow> lstrip s = s"
proof -
  assume eq: "strip s = s"
  have "length s = length (rstrip (lstrip s))" using eq by (simp add: strip_def)
  also have "\<dots> \<le> length (lstrip s)" by (rule length_rstrip)
  finally have "length (dropWhile is_space s) = length s"
    using length_lstrip[of s] by (simp add: lstrip_def)
  then have "dropWhile is_space s = s"
    by (metis dropWhile_eq_drop length_drop diff_diff_cancel length_takeWhile_le drop0 diff_self_eq_0)
  then show ?thesis by (simp add: lstrip_def)
qed

lemma strip_fixed_hd: "strip s = s \<Longrightarrow> s \<noteq> [] \<Longrightarrow> \<not> is_space (hd s)"
  using strip_fixed_lstrip[of s] hd_dropWhile[of is_space s] by (simp add: lstrip_def)

lemma strip_fixed_last: "strip s = s \<Longrightarrow> s \<noteq> [] \<Longrightarrow> \<not> is_space (last s)"
  using strip_fixed_lstrip[of s] rstrip_fixed[of s] by (simp add: strip_def)

lemma split_word_words:
  "x \<in> set (split_word w s) \<Longrightarrow> \<forall>c\<in>set w. \<not> is_space c \<Longrightarrow>
     x \<noteq> [] \<and> (\<forall>c\<in>set x. \<not> is_space c)"
  by (induction w s rule: split_word.induct) (auto split: if_splits)

lemma join_words_ends:
  "\<forall>x\<in>set xs. x \<noteq> [] \<and> (\<forall>c\<in>set x. \<not> is_space c) \<Longrightarrow> xs \<noteq> [] \<Longrightarrow>
     join sep xs \<noteq> [] \<and> \<not> is_space (hd (join sep xs)) \<and> \<not> is_space (last (join sep xs))"
  by (induction sep xs rule: join.induct) (auto simp: hd_append)

lemma strip_join_split: "strip (join sep (split_ws s)) = join sep (split_ws s)"
proof (cases "split_ws s = []")
  case True
  then show ?thesis by (simp add: strip_def lstrip_def rstrip_def)
next
  case False
  have "\<forall>x\<in>set (split_ws s). x \<noteq> [] \<and> (\<forall>c\<in>set x. \<not> is_space c)"
    using split_word_words[of _ "[]" s] by (auto simp: split_ws_def)
  from join_words_ends[OF this False] show ?thesis
    by (simp add: strip_trimmed)
qed

lemma parse_loop_no_match:
  "\<forall>h\<in>set hs. \<not> startswith s (h @ '' '') \<Longrightarrow> parse_loop hs s = (s, '''')"
  by (induction hs) auto

lemma parse_loop_match:
  "parse_loop hs s = (n, h) \<Longrightarrow> h \<noteq> [] \<Longrightarrow> h \<in> set hs \<and> startswith s (h @ '' '')"
  by (induction hs) (auto split: if_splits)

lemma parse_loop_hit:
  "startswith s (h @ '' '') \<Longrightarrow> h \<in> set hs \<Longrightarrow>
   (\<forall>q\<in>set hs. q \<noteq> h \<longrightarrow> \<not> startswith s (q @ '' '')) \<Longrightarrow>
   parse_loop hs s = (strip (drop (length h) s), h)"
  by (induction hs) auto

lemma honorific_no_overlap:
  "p \<in> set honorifics \<Longrightarrow> q \<in> set honorifics \<Longrightarrow> q \<noteq> p \<Longrightarrow>
   \<not> startswith (p @ '' '' @ n) (q @ '' '')"
  unfolding honorifics_def startswith_def by auto

lemma parse_honorific_split:
  assumes "p \<in> set honorifics" and "n \<noteq> []" and "strip n = n"
  shows "parse_name_and_honorific (p @ '' '' @ n) = (n, p)"
proof -
  have n: "\<not> is_space (last n)" using assms by (simp add: strip_fixed_last)
  have sp: "is_space CHR '' ''" by (simp add: is_space_def)
  have p: "p \<noteq> [] \<and> \<not> is_space (hd p)" using assms(1) by (auto simp: honorifics_def is_space_def)
  have s1: "strip (p @ '' '' @ n) = p @ '' '' @ n"
    using p n assms(2) by (intro strip_trimmed) (simp_all add: hd_append)
  have s2: "strip ('' '' @ n) = n"
    using assms(3) sp by (simp add: strip_def lstrip_def)
  have "parse_loop honorifics (p @ '' '' @ n) = (strip (drop (length p) (p @ '' '' @ n)), p)"
    using assms(1) honorific_no_overlap[OF assms(1)]
    by (intro parse_loop_hit) (simp_all add: startswith_def)
  then show ?thesis using s1 s2 by (simp add: parse_name_and_honorific_def)
qed

lemma honorifics_set:
  "set honorifics = {''Assoc Prof'', ''A/Prof'', ''Prof'', ''Dr'', ''Mrs'', ''Ms'', ''Mr'', ''Miss''}"
  by (auto simp: honorifics_def)

section \<open>The name splitter: claims C2 and C3\<close>

text \<open>
  C2, as amended. For every recognized honorific prefix \<open>p\<close> and every non-empty base
  name \<open>n\<close> with no whitespace at its start or end, \<open>parse_name_and_honorific\<close> of
  \<open>p\<close>, a space and \<open>n\<close> returns \<open>(n, p)\<close>; so the compound prefixes \<open>Assoc Prof\<close> and
  \<open>A/Prof\<close> are matched as wholes, never cut down to \<open>Prof\<close>. Whether \<open>n\<close> itself starts
  with a recognized prefix does not matter.
\<close>

theorem parse_honorific_prefix:
  assumes "p \<in> {''Assoc Prof'', ''A/Prof'', ''Prof'', ''Dr'', ''Mrs'', ''Ms'', ''Mr'', ''Miss''}"
    and "n \<noteq> []" and "strip n = n"
  shows "parse_name_and_honorific (p @ '' '' @ n) = (n, p)"
proof -
  have "p \<in> set honorifics" using assms(1) by (simp only: honorifics_set)
  then show ?thesis using assms(2,3) by (rule parse_honorific_split)
qed

theorem parse_honorific_prefix_witness:
  "''Assoc Prof'' \<in> {''Assoc Prof'', ''A/Prof'', ''Prof'', ''Dr'', ''Mrs'', ''Ms'', ''Mr'', ''Miss''}
   \<and> ''Jane Doe'' \<noteq> [] \<and> strip ''Jane Doe'' = ''Jane Doe''
   \<and> parse_name_and_honorific (''Assoc Prof'' @ '' '' @ ''Jane Doe'') = (''Jane Doe'', ''Assoc Prof'')"
proof -
  have s: "strip ''Jane Doe'' = ''Jane Doe''"
    by (simp add: strip_def lstrip_def rstrip_def is_space_def)
  have "parse_name_and_honorific (''Assoc Prof'' @ '' '' @ ''Jane Doe'') = (''Jane Doe'', ''Assoc Prof'')"
    using s by (intro parse_honorific_prefix) simp_all
  with s show ?thesis by simp
qed

text \<open>
  C2 as stated fails: the base name \<open>'' Bob''\<close> is not empty and starts with no
  recognized prefix, yet the name returned for \<open>''Dr  Bob''\<close> is \<open>''Bob''\<close>, stripped.
\<close>

theorem parse_honorific_prefix_counterexample:
  "''Dr'' \<in> {''Assoc Prof'', ''A/Prof'', ''Prof'', ''Dr'', ''Mrs'', ''Ms'', ''Mr'', ''Miss''}
   \<and> '' Bob'' \<noteq> []
   \<and> filter (\<lambda>q. startswith '' Bob'' (q @ '' '')) honorifics = []
   \<and> parse_name_and_honorific (''Dr'' @ '' '' @ '' Bob'') = (''Bob'', ''Dr'')
   \<and> parse_name_and_honorific (''Dr'' @ '' '' @ '' Bob'') \<noteq> ('' Bob'', ''Dr'')"
  by (simp add: parse_name_and_honorific_def honorifics_def startswith_def
      strip_def lstrip_def rstrip_def is_space_def)

text \<open>
  C3. A whitespace-normalized input (one that \<open>' '.join(s.split())\<close> leaves as it is)
  that does not begin with a recognized prefix followed by a space comes back unchanged
  as the name, with the empty honorific. Whatever the input, a honorific is returned only
  when the stripped input begins with it followed by a space; so \<open>''Mrston Smith''\<close> comes
  back whole, and not with the honorific \<open>Mrs\<close>.
\<close>

theorem parse_without_honorific:
  "(join '' '' (split_ws s) = s \<and> (\<forall>h\<in>set honorifics. \<not> startswith s (h @ '' ''))
      \<longrightarrow> parse_name_and_honorific s = (s, ''''))
   \<and> (snd (parse_name_and_honorific t) \<noteq> ''''
      \<longrightarrow> startswith (strip t) (snd (parse_name_and_honorific t) @ '' ''))
   \<and> parse_name_and_honorific ''Mrston Smith'' = (''Mrston Smith'', '''')
   \<and> snd (parse_name_and_honorific ''Mrston Smith'') \<noteq> ''Mrs''"
proof (intro conjI impI)
  assume a: "join '' '' (split_ws s) = s \<and> (\<forall>h\<in>set honorifics. \<not> startswith s (h @ '' ''))"
  have "strip s = s" using strip_join_split[of "'' ''" s] a by simp
  then show "parse_name_and_honorific s = (s, '''')"
    using a by (simp add: parse_name_and_honorific_def parse_loop_no_match)
next
  assume "snd (parse_name_and_honorific t) \<noteq> ''''"
  then show "startswith (strip t) (snd (parse_name_and_honorific t) @ '' '')"
    using parse_loop_match[of honorifics "strip t" "fst (parse_name_and_honorific t)" "snd (parse_name_and_honorific t)"]
    by (simp add: parse_name_and_honorific_def)
next
  show m: "parse_name_and_honorific ''Mrston Smith'' = (''Mrston Smith'', '''')"
    by (simp add: parse_name_and_honorific_def honorifics_def startswith_def
        strip_def lstrip_def rstrip_def is_space_def)
  show "snd (parse_name_and_honorific ''Mrston Smith'') \<noteq> ''Mrs''"
    by (simp add: m)
qed

theorem parse_without_honorific_witness:
  "join '' '' (split_ws ''Jane Doe'') = ''Jane Doe''
   \<and> filter (\<lambda>h. startswith ''Jane Doe'' (h @ '' '')) honorifics = []
   \<and> parse_name_and_honorific ''Jane Doe'' = (''Jane Doe'', '''')
   \<and> snd (parse_name_and_honorific ''Dr Jane Doe'') \<noteq> ''''
   \<and> startswith (strip ''Dr Jane Doe'') (snd (parse_name_and_honorific ''Dr Jane Doe'') @ '' '')"
proof -
  have j: "join '' '' (split_ws ''Jane Doe'') = ''Jane Doe''"
    by (simp add: split_ws_def is_space_def)
  have f: "filter (\<lambda>h. startswith ''Jane Doe'' (h @ '' '')) honorifics = []"
    by (simp add: honorifics_def startswith_def)
  then have n: "\<forall>h\<in>set honorifics. \<not> startswith ''Jane Doe'' (h @ '' '')"
    by (simp add: filter_empty_conv)
  have d: "snd (parse_name_and_honorific ''Dr Jane Doe'') \<noteq> ''''"
    by (simp add: parse_name_and_honorific_def honorifics_def startswith_def
        strip_def lstrip_def rstrip_def is_space_def)
  from parse_without_honorific[of "''Jane Doe''" "''Dr Jane Doe''"] j f n d
  show ?thesis by blast
qed

lemma rstrip_slash_origin: "rstrip_slash ''https://cis.unimelb.edu.au'' = ''https://cis.unimelb.edu.au''"
  by (simp add: rstrip_slash_def)

lemma startswith_slash_not_http: "startswith href ''/'' \<Longrightarrow> \<not> startswith href ''http''"
  by (cases href) (auto simp: startswith_def)

section \<open>Resolving link targets: claim C4\<close>

text \<open>
  C4, as amended. For every raw link target \<open>href\<close>, the card extractor's profile URL
  and the category link finder's URL (called with the site's root origin, as \<open>main\<close>
  does) are the same, by one rule: a target that begins with \<open>http\<close> is kept unchanged;
  a target that begins with \<open>/\<close> has the root origin put before it; any other target is
  joined onto the root origin with a \<open>/\<close> between them. So \<open>/people/john\<close> resolves to
  the origin followed by \<open>/people/john\<close>, and \<open>john\<close> to the origin followed by \<open>/john\<close>.
\<close>

theorem url_resolution:
  "full_url ''https://cis.unimelb.edu.au'' href = profile_url href
   \<and> (startswith href ''http'' \<longrightarrow> profile_url href = href)
   \<and> (startswith href ''/'' \<longrightarrow> profile_url href = ''https://cis.unimelb.edu.au'' @ href)
   \<and> (\<not> startswith href ''http'' \<and> \<not> startswith href ''/''
        \<longrightarrow> profile_url href = ''https://cis.unimelb.edu.au'' @ ''/'' @ href)
   \<and> profile_url ''/people/john'' = ''https://cis.unimelb.edu.au/people/john''
   \<and> profile_url ''john'' = ''https://cis.unimelb.edu.au/john''"
proof (intro conjI impI)
  show "full_url ''https://cis.unimelb.edu.au'' href = profile_url href"
    using startswith_slash_not_http[of href]
    by (simp add: full_url_def profile_url_def rstrip_slash_origin)
  show "startswith href ''http'' \<Longrightarrow> profile_url href = href"
    by (simp add: profile_url_def)
  show "startswith href ''/'' \<Longrightarrow> profile_url href = ''https://cis.unimelb.edu.au'' @ href"
    using startswith_slash_not_http[of href] by (simp add: profile_url_def)
  show "\<not> startswith href ''http'' \<and> \<not> startswith href ''/'' \<Longrightarrow>
      profile_url href = ''https://cis.unimelb.edu.au'' @ ''/'' @ href"
    by (simp add: profile_url_def)
  show "profile_url ''/people/john'' = ''https://cis.unimelb.edu.au/people/john''"
    by (simp add: profile_url_def startswith_def)
  show "profile_url ''john'' = ''https://cis.unimelb.edu.au/john''"
    by (simp add: profile_url_def startswith_def)
qed

theorem url_resolution_witness:
  "startswith ''https://example.org/jane'' ''http''
   \<and> profile_url ''https://example.org/jane'' = ''https://example.org/jane''
   \<and> full_url ''https://cis.unimelb.edu.au'' ''https://example.org/jane'' = ''https://example.org/jane''
   \<and> startswith ''/people/john'' ''/''
   \<and> profile_url ''/people/john'' = ''https://cis.unimelb.edu.au/people/john''
   \<and> full_url ''https://cis.unimelb.edu.au'' ''/people/john'' = ''https://cis.unimelb.edu.au/people/john''
   \<and> \<not> startswith ''john'' ''http'' \<and> \<not> startswith ''john'' ''/''
   \<and> profile_url ''john'' = ''https://cis.unimelb.edu.au/john''
   \<and> full_url ''https://cis.unimelb.edu.au'' ''john'' = ''https://cis.unimelb.edu.au/john''"
proof -
  have a: "startswith ''https://example.org/jane'' ''http''" by (simp add: startswith_def)
  have b: "startswith ''/people/john'' ''/''" by (simp add: startswith_def)
  have c: "\<not> startswith ''john'' ''http'' \<and> \<not> startswith ''john'' ''/''" by (simp add: startswith_def)
  show ?thesis
    using a b c url_resolution[of "''https://example.org/jane''"]
      url_resolution[of "''/people/john''"] url_resolution[of "''john''"]
    by simp
qed

text \<open>
  C4 as stated fails: \<open>ftp://ftp.example.org/cv.pdf\<close> begins with a scheme, and neither
  resolution keeps it unchanged; both join it onto the root origin.
\<close>

theorem url_resolution_counterexample:
  "spec_begins_with_scheme ''ftp://ftp.example.org/cv.pdf''
   \<and> profile_url ''ftp://ftp.example.org/cv.pdf'' = ''https://cis.unimelb.edu.au/ftp://ftp.example.org/cv.pdf''
   \<and> profile_url ''ftp://ftp.example.org/cv.pdf'' \<noteq> ''ftp://ftp.example.org/cv.pdf''
   \<and> full_url ''https://cis.unimelb.edu.au'' ''ftp://ftp.example.org/cv.pdf'' \<noteq> ''ftp://ftp.example.org/cv.pdf''"
  by (simp add: spec_begins_with_scheme_def is_alpha_def is_scheme_char_def profile_url_def
      full_url_def startswith_def rstrip_slash_origin)

section \<open>The card extractor on single pages: claim C9\<close>

text \<open>
  C9. With the default category \<open>Research Fellows\<close>, a page whose one card has the bare
  header text \<open>Dr A Lee\<close>, no link and no sub-heading, and no qualifying section header
  before it (none at all, or only the boilerplate \<open>Site footer\<close>), yields exactly one
  record: name \<open>A Lee\<close>, honorific \<open>Dr\<close>, profile URL \<open>N/A\<close>, title \<open>N/A\<close>, category
  \<open>Research Fellows\<close>.
\<close>

theorem research_fellow_card:
  "extract_people_data
     (Tag ''[document]'' []
        [Tag ''div'' [(''class'', ''card'')]
           [Tag ''h3'' [(''class'', ''card__header'')] [NavigableString ''Dr A Lee'']]])
     (Some ''Research Fellows'')
   = [[(''name'', ''A Lee''), (''honorific'', ''Dr''), (''profile_url'', ''N/A''),
       (''title'', ''N/A''), (''category'', ''Research Fellows'')]]
   \<and> extract_people_data
     (Tag ''[document]'' []
        [Tag ''html'' []
           [Tag ''body'' []
              [Tag ''h2'' [(''id'', ''footer'')] [NavigableString ''Site footer''],
               NavigableString [CHR 0x0A],
               Tag ''div'' [(''class'', ''card card--person'')]
                 [NavigableString [CHR 0x0A],
                  Tag ''h3'' [(''class'', ''card__header'')] [NavigableString ''Dr A Lee''],
                  NavigableString [CHR 0x0A]]]]])
     (Some ''Research Fellows'')
   = [[(''name'', ''A Lee''), (''honorific'', ''Dr''), (''profile_url'', ''N/A''),
       (''title'', ''N/A''), (''category'', ''Research Fellows'')]]"
  by code_simp

section \<open>Facts about the card extractor\<close>

lemma strip_eq_Nil: "strip s = [] \<longleftrightarrow> (\<forall>c\<in>set s. is_space c)"
proof -
  have "rstrip (dropWhile is_space s) = [] \<longleftrightarrow> dropWhile is_space s = []"
  proof (cases "dropWhile is_space s")
    case Nil
    show ?thesis unfolding Nil by (simp add: rstrip_def)
  next
    case (Cons a ys)
    then have "\<not> is_space a" using hd_dropWhile[of is_space s] by auto
    then have "a \<in> set (dropWhile is_space (rev (a # ys)))"
      by (metis (no_types) dropWhile_append3 in_set_conv_decomp rev.simps(2))
    then have "dropWhile is_space (rev (a # ys)) \<noteq> []"
      by (metis empty_iff list.set(1))
    then have "rstrip (a # ys) \<noteq> []" by (simp add: rstrip_def)
    then show ?thesis unfolding Cons by simp
  qed
  then show ?thesis by (simp add: strip_def lstrip_def dropWhile_eq_Nil_conv)
qed

lemma strip_last: "strip s \<noteq> [] \<Longrightarrow> \<not> is_space (last (strip s))"
proof -
  assume a: "strip s \<noteq> []"
  then have "dropWhile is_space (rev (lstrip s)) \<noteq> []" by (simp add: strip_def rstrip_def)
  then have "\<not> is_space (hd (dropWhile is_space (rev (lstrip s))))" by (rule hd_dropWhile)
  then show ?thesis using a by (simp add: strip_def rstrip_def last_rev)
qed

lemma parse_loop_cases:
  "parse_loop hs t = (t, '''') \<or>
   (\<exists>h\<in>set hs. startswith t (h @ '' '') \<and> parse_loop hs t = (strip (drop (length h) t), h))"
  by (induction hs) auto

lemma parse_name_empty: "fst (parse_name_and_honorific s) = [] \<longleftrightarrow> strip s = []"
proof (cases "strip s = []")
  case True
  then show ?thesis
    by (simp add: parse_name_and_honorific_def honorifics_def startswith_def)
next
  case False
  define t where "t = strip s"
  have t: "t \<noteq> []" and lt: "\<not> is_space (last t)"
    using False strip_last[of s] by (simp_all add: t_def)
  from parse_loop_cases[of honorifics t] have "fst (parse_loop honorifics t) \<noteq> []"
  proof
    assume "parse_loop honorifics t = (t, '''')"
    then show ?thesis using t by simp
  next
    assume "\<exists>h\<in>set honorifics. startswith t (h @ '' '') \<and>
        parse_loop honorifics t = (strip (drop (length h) t), h)"
    then obtain h where h: "startswith t (h @ '' '')"
      and r: "parse_loop honorifics t = (strip (drop (length h) t), h)" by blast
    from h have "length (take (length (h @ '' '')) t) = length (h @ '' '')"
      by (simp only: startswith_def)
    then have "length h < length t" by simp
    then have "drop (length h) t \<noteq> []" and "last (drop (length h) t) = last t"
      by simp_all
    then have "last t \<in> set (drop (length h) t)" by (metis last_in_set)
    then have "strip (drop (length h) t) \<noteq> []" using lt by (auto simp: strip_eq_Nil)
    then show ?thesis using r by simp
  qed
  then show ?thesis using False by (simp add: parse_name_and_honorific_def t_def)
qed

lemma map_of_setitem: "map_of (setitem d k v) k' = (if k' = k then Some v else map_of d k')"
  by (induction d k v rule: setitem.induct) auto

lemma name_fields_name:
  "map_of (name_fields header []) ''name'' = Some (fst (parse_name_and_honorific (full_name_of header)))"
  by (simp add: name_fields_def map_of_setitem Let_def case_prod_beta split: option.splits)

lemma name_fields_url:
  "map_of (name_fields header []) ''profile_url'' =
     (case find_tag header (is_tag ''a'') of
        None \<Rightarrow> Some ''N/A''
      | Some name_link \<Rightarrow>
          Some (profile_url (case get_attr name_link ''href'' of Some v \<Rightarrow> v | None \<Rightarrow> '''')))"
  by (simp add: name_fields_def map_of_setitem Let_def case_prod_beta split: option.splits)

lemma title_field_other: "k \<noteq> ''title'' \<Longrightarrow> map_of (title_field c d) k = map_of d k"
  by (simp add: title_field_def map_of_setitem split: option.splits)

lemma person_record_name:
  "map_of (person_record c header cat) ''name'' = Some (fst (parse_name_and_honorific (full_name_of header)))"
  by (simp add: map_of_setitem title_field_other name_fields_name)

lemma person_record_url:
  "map_of (person_record c header cat) ''profile_url'' = map_of (name_fields header []) ''profile_url''"
  by (simp add: map_of_setitem title_field_other)

lemma person_record_category: "map_of (person_record c header cat) ''category'' = Some cat"
  by (simp add: map_of_setitem)

lemma extract_loop_acc:
  "extract_loop cards cat people = people @ extract_loop cards cat []"
proof (induction cards arbitrary: cat people)
  case Nil
  then show ?case by simp
next
  case (Cons c cards)
  show ?case
  proof (cases "find_tag (snd c) header_filter")
    case None
    then show ?thesis using Cons[of "section_category c cat" people] by simp
  next
    case (Some h)
    then show ?thesis
      using Cons[of "section_category c cat" "people @ [person_record c h (section_category c cat)]"]
        Cons[of "section_category c cat" "[person_record c h (section_category c cat)]"]
      by (simp add: Let_def)
  qed
qed

lemma extract_loop_skip:
  "find_tag (snd c) header_filter = None \<Longrightarrow>
   extract_loop (c # cards) cat [] = extract_loop cards (section_category c cat) []"
  by simp

lemma extract_loop_emit:
  "find_tag (snd c) header_filter = Some h \<Longrightarrow>
   extract_loop (c # cards) cat [] =
     person_record c h (section_category c cat) # extract_loop cards (section_category c cat) []"
  using extract_loop_acc[of cards "section_category c cat" "[person_record c h (section_category c cat)]"]
  by (simp add: Let_def)

lemma extract_loop_length:
  "length (extract_loop cards cat []) = length (filter (\<lambda>c. find_tag (snd c) header_filter \<noteq> None) cards)"
proof (induction cards arbitrary: cat)
  case Nil
  then show ?case by simp
next
  case (Cons c cards)
  then show ?case
    by (cases "find_tag (snd c) header_filter")
      (simp_all only: extract_loop_skip extract_loop_emit filter.simps list.size, simp_all)
qed

lemma extract_loop_mem:
  "r \<in> set (extract_loop cards cat []) \<Longrightarrow>
   \<exists>c\<in>set cards. \<exists>h cat'. find_tag (snd c) header_filter = Some h \<and> r = person_record c h cat'"
proof (induction cards arbitrary: cat)
  case Nil
  then show ?case by simp
next
  case (Cons c cards)
  show ?case
  proof (cases "find_tag (snd c) header_filter")
    case None
    with Cons.prems have "r \<in> set (extract_loop cards (section_category c cat) [])"
      by (simp only: extract_loop_skip)
    from Cons.IH[OF this] show ?thesis by auto
  next
    case (Some h)
    with Cons.prems have "r = person_record c h (section_category c cat) \<or>
        r \<in> set (extract_loop cards (section_category c cat) [])"
      by (simp only: extract_loop_emit set_simps insert_iff)
    then show ?thesis
    proof
      assume "r = person_record c h (section_category c cat)"
      with Some show ?thesis by auto
    next
      assume "r \<in> set (extract_loop cards (section_category c cat) [])"
      from Cons.IH[OF this] show ?thesis by auto
    qed
  qed
qed

lemma extract_loop_has:
  "c \<in> set cards \<Longrightarrow> find_tag (snd c) header_filter = Some h \<Longrightarrow>
   \<exists>cat'. person_record c h cat' \<in> set (extract_loop cards cat [])"
proof (induction cards arbitrary: cat)
  case Nil
  then show ?case by simp
next
  case (Cons d cards)
  show ?case
  proof (cases "c = d")
    case True
    then have "extract_loop (d # cards) cat [] =
        person_record c h (section_category c cat) # extract_loop cards (section_category c cat) []"
      using Cons.prems(2) by (simp only: extract_loop_emit)
    then have "person_record c h (section_category c cat) \<in> set (extract_loop (d # cards) cat [])"
      by (simp only: list.set_intros(1))
    then show ?thesis by blast
  next
    case False
    then have c: "c \<in> set cards" using Cons.prems(1) by simp
    from Cons.IH[OF c Cons.prems(2), of "section_category d cat"]
    obtain cat' where m: "person_record c h cat' \<in> set (extract_loop cards (section_category d cat) [])"
      by blast
    show ?thesis
    proof (cases "find_tag (snd d) header_filter")
      case None
      have e: "extract_loop (d # cards) cat [] = extract_loop cards (section_category d cat) []"
        using None by (rule extract_loop_skip)
      show ?thesis unfolding e using m by blast
    next
      case (Some hd)
      have e: "extract_loop (d # cards) cat [] =
          person_record d hd (section_category d cat) # extract_loop cards (section_category d cat) []"
        using Some by (rule extract_loop_emit)
      have "person_record c h cat' \<in> set (extract_loop (d # cards) cat [])"
        unfolding e using m by (rule list.set_intros(2))
      then show ?thesis by blast
    qed
  qed
qed

lemma categories_emit:
  "find_tag (snd c) header_filter = Some h \<Longrightarrow>
   categories (extract_loop (c # cards) cat []) =
     Some (section_category c cat) # categories (extract_loop cards (section_category c cat) [])"
  by (simp only: extract_loop_emit list.map person_record_category)

lemma categories_skip:
  "find_tag (snd c) header_filter = None \<Longrightarrow>
   categories (extract_loop (c # cards) cat []) =
     categories (extract_loop cards (section_category c cat) [])"
  by (simp only: extract_loop_skip)

lemma section_category_qualifying:
  "find_previous c section_filter = Some prev_section \<Longrightarrow>
   get_text_strip prev_section \<noteq> [] \<Longrightarrow>
   get_text_strip prev_section \<noteq> ''Featured content'' \<Longrightarrow>
   get_text_strip prev_section \<noteq> ''Site footer'' \<Longrightarrow>
   section_category c cat = get_text_strip prev_section"
  by (simp add: section_category_def)

lemma section_category_other:
  "find_previous c section_filter = None \<or>
   (\<exists>prev_section. find_previous c section_filter = Some prev_section \<and>
      (get_text_strip prev_section = [] \<or> get_text_strip prev_section = ''Featured content''
       \<or> get_text_strip prev_section = ''Site footer'')) \<Longrightarrow>
   section_category c cat = cat"
  by (auto simp: section_category_def)

lemma get_text_strip_single:
  "get_text_strip (Tag ''h2'' a [NavigableString t]) = strip t"
  by (simp add: get_text_strip_def string_container_def)

lemma has_class_card: "has_class ''card'' (Tag n [(''class'', ''card'')] cs)"
  by (simp add: has_class_def split_ws_def is_space_def)

lemma has_class_header: "has_class ''card__header'' (Tag n [(''class'', ''card__header'')] cs)"
  by (simp add: has_class_def split_ws_def is_space_def)

lemma has_class_none: "\<not> has_class k (Tag n [(''id'', i)] cs)" "\<not> has_class k (NavigableString t)"
  "\<not> has_class k (OtherString j t)"
  "\<not> has_class ''card'' (Tag n [(''class'', ''card__header'')] cs)"
  "\<not> has_class ''card__header'' (Tag n [(''class'', ''card'')] cs)"
  by (simp_all add: has_class_def split_ws_def is_space_def)

lemma has_attr_id: "has_attr ''id'' (Tag n [(''id'', i)] cs)" "\<not> has_attr ''id'' (Tag n [(''class'', k)] cs)"
  "\<not> has_attr ''id'' (Tag n [] cs)"
  by (simp_all add: has_attr_def)

lemma scenario_two_sections:
  assumes "strip t1 \<noteq> []" "strip t1 \<noteq> ''Featured content''" "strip t1 \<noteq> ''Site footer''"
    and "strip t2 \<noteq> []" "strip t2 \<noteq> ''Featured content''" "strip t2 \<noteq> ''Site footer''"
  shows "categories (extract_people_data
     (Tag ''[document]'' []
        [Tag ''h2'' [(''id'', i1)] [NavigableString t1],
         Tag ''div'' [(''class'', ''card'')] [Tag ''h3'' [(''class'', ''card__header'')] [NavigableString a]],
         Tag ''div'' [(''class'', ''card'')] [Tag ''h3'' [(''class'', ''card__header'')] [NavigableString b]],
         Tag ''h2'' [(''id'', i2)] [NavigableString t2],
         Tag ''div'' [(''class'', ''card'')] [Tag ''h3'' [(''class'', ''card__header'')] [NavigableString c]],
         Tag ''div'' [(''class'', ''card'')] [Tag ''h3'' [(''class'', ''card__header'')] [NavigableString d]]])
     None) = [Some (strip t1), Some (strip t1), Some (strip t2), Some (strip t2)]"
  using assms
  by (simp add: extract_people_data_def find_all_elements_def find_tag_def find_previous_def
      section_category_def get_text_strip_single has_class_card has_class_header has_class_none
      has_attr_id categories_emit del: extract_loop.simps(2))

lemma scenario_boilerplate_between:
  assumes "strip ta \<noteq> []" "strip ta \<noteq> ''Featured content''" "strip ta \<noteq> ''Site footer''"
    and "strip tb \<noteq> []" "strip tb \<noteq> ''Featured content''" "strip tb \<noteq> ''Site footer''"
    and "strip tc = [] \<or> strip tc = ''Featured content'' \<or> strip tc = ''Site footer''"
  shows "categories (extract_people_data
     (Tag ''[document]'' []
        [Tag ''h2'' [(''id'', ia)] [NavigableString ta],
         Tag ''div'' [(''class'', ''card'')] [Tag ''h3'' [(''class'', ''card__header'')] [NavigableString a]],
         Tag ''div'' [(''class'', ''card'')] [Tag ''h3'' [(''class'', ''card__header'')] [NavigableString b]],
         Tag ''h2'' [(''id'', ib)] [NavigableString tb],
         Tag ''div'' [(''class'', ''card'')] [Tag ''h3'' [(''class'', ''card__header'')] [NavigableString c]],
         Tag ''h2'' [(''id'', ic)] [NavigableString tc],
         Tag ''div'' [(''class'', ''card'')] [Tag ''h3'' [(''class'', ''card__header'')] [NavigableString d]]])
     None) = [Some (strip ta), Some (strip ta), Some (strip tb), Some (strip tb)]"
  using assms
  by (auto simp add: extract_people_data_def find_all_elements_def find_tag_def find_previous_def
      section_category_def get_text_strip_single has_class_card has_class_header has_class_none
      has_attr_id categories_emit simp del: extract_loop.simps(2))

lemma categories_stable:
  "\<forall>c\<in>set cards. section_category c cat = cat \<Longrightarrow>
   set (categories (extract_loop cards cat [])) \<subseteq> {Some cat}"
proof (induction cards)
  case Nil
  then show ?case by simp
next
  case (Cons c cards)
  then have c: "section_category c cat = cat"
    and IH: "set (categories (extract_loop cards cat [])) \<subseteq> {Some cat}" by simp_all
  show ?case
  proof (cases "find_tag (snd c) header_filter")
    case None
    show ?thesis unfolding categories_skip[OF None] c using IH .
  next
    case (Some h)
    show ?thesis unfolding categories_emit[OF Some] c using IH by simp
  qed
qed

lemma extract_people_data_loop:
  "extract_people_data soup default_category =
     extract_loop (find_all_elements soup card_filter)
       (case default_category of None \<Rightarrow> ''General'' | Some c \<Rightarrow> if c = [] then ''General'' else c) []"
  by (simp add: extract_people_data_def Let_def)

lemma profile_url_not_na: "profile_url href \<noteq> ''N/A''"
  by (auto simp: profile_url_def startswith_def)

lemma profile_url_empty: "profile_url '''' = ''https://cis.unimelb.edu.au/''"
  by (simp add: profile_url_def startswith_def)

lemma get_text_strip_script:
  "get_text_strip (Tag ''h2'' a [NavigableString t, Tag ''script'' [] [OtherString Script js]]) = strip t"
  by (simp add: get_text_strip_def string_container_def)

lemma scenario_script_in_heading:
  assumes "strip t = [] \<or> strip t = ''Featured content'' \<or> strip t = ''Site footer''"
  shows "categories (extract_people_data
     (Tag ''[document]'' []
        [Tag ''h2'' [(''id'', i)] [NavigableString t, Tag ''script'' [] [OtherString Script js]],
         Tag ''div'' [(''class'', ''card'')] [Tag ''h3'' [(''class'', ''card__header'')] [NavigableString a]]])
     None) = [Some ''General'']"
  using assms
  by (auto simp add: extract_people_data_def find_all_elements_def find_tag_def find_previous_def
      section_category_def get_text_strip_script has_class_card has_class_header has_class_none
      has_attr_id categories_emit simp del: extract_loop.simps(2))

section \<open>Records and names: claim C1\<close>

text \<open>
  C1, as amended. For every parsed page and every optional default category, the records
  returned by \<open>extract_people_data\<close> are those of the cards that have a header element
  (\<open>h3.card__header\<close>), one each: a card with no header is skipped entirely. The name of a
  record is the text of its card's header (of the link in it, when there is one) without
  the honorific, and it is empty exactly when that text has no character other than
  whitespace. The text is what \<open>get_text\<close> reads: the strings below the element, those
  of scripts, style sheets, templates and comments left out.
\<close>

theorem extracted_record_names:
  "length (extract_people_data soup default_category) =
     length (filter (\<lambda>c. find_tag (snd c) (\<lambda>n. is_tag ''h3'' n \<and> has_class ''card__header'' n) \<noteq> None)
               (find_all_elements soup (\<lambda>n. is_tag ''div'' n \<and> has_class ''card'' n)))
   \<and> (\<forall>r\<in>set (extract_people_data soup default_category).
        \<exists>c\<in>set (find_all_elements soup (\<lambda>n. is_tag ''div'' n \<and> has_class ''card'' n)).
        \<exists>header category.
          find_tag (snd c) (\<lambda>n. is_tag ''h3'' n \<and> has_class ''card__header'' n) = Some header
          \<and> r = setitem (title_field (snd c) (name_fields header [])) ''category'' category
          \<and> map_of r ''name'' = Some (fst (parse_name_and_honorific (full_name_of header)))
          \<and> (fst (parse_name_and_honorific (full_name_of header)) = []
               \<longleftrightarrow> strip (full_name_of header) = []))"
proof (intro conjI ballI)
  show "length (extract_people_data soup default_category) =
     length (filter (\<lambda>c. find_tag (snd c) header_filter \<noteq> None) (find_all_elements soup card_filter))"
    by (simp only: extract_people_data_loop extract_loop_length)
next
  fix r
  assume "r \<in> set (extract_people_data soup default_category)"
  then obtain c h cat' where c: "c \<in> set (find_all_elements soup card_filter)"
    and h: "find_tag (snd c) header_filter = Some h" and r: "r = person_record c h cat'"
    unfolding extract_people_data_loop using extract_loop_mem by blast
  have "map_of r ''name'' = Some (fst (parse_name_and_honorific (full_name_of h)))"
    unfolding r by (rule person_record_name)
  moreover have "fst (parse_name_and_honorific (full_name_of h)) = [] \<longleftrightarrow> strip (full_name_of h) = []"
    by (rule parse_name_empty)
  ultimately show "\<exists>c\<in>set (find_all_elements soup card_filter). \<exists>header category.
          find_tag (snd c) header_filter = Some header
          \<and> r = person_record c header category
          \<and> map_of r ''name'' = Some (fst (parse_name_and_honorific (full_name_of header)))
          \<and> (fst (parse_name_and_honorific (full_name_of header)) = []
               \<longleftrightarrow> strip (full_name_of header) = [])"
    using c h r by blast
qed

text \<open>
  The theorem on a page of two cards, the first with no header: one record, named.
\<close>

theorem extracted_record_names_witness:
  "[(''name'', ''A Lee''), (''honorific'', ''Dr''), (''profile_url'', ''N/A''),
    (''title'', ''N/A''), (''category'', ''General'')]
     \<in> set (extract_people_data
         (Tag ''[document]'' []
            [Tag ''div'' [(''class'', ''card'')] [NavigableString ''News''],
             Tag ''div'' [(''class'', ''card'')]
               [Tag ''h3'' [(''class'', ''card__header'')] [NavigableString ''Dr A Lee'']]])
         None)
   \<and> length (extract_people_data
         (Tag ''[document]'' []
            [Tag ''div'' [(''class'', ''card'')] [NavigableString ''News''],
             Tag ''div'' [(''class'', ''card'')]
               [Tag ''h3'' [(''class'', ''card__header'')] [NavigableString ''Dr A Lee'']]])
         None) = 1
   \<and> length (filter (\<lambda>c. find_tag (snd c) (\<lambda>n. is_tag ''h3'' n \<and> has_class ''card__header'' n) \<noteq> None)
       (find_all_elements
         (Tag ''[document]'' []
            [Tag ''div'' [(''class'', ''card'')] [NavigableString ''News''],
             Tag ''div'' [(''class'', ''card'')]
               [Tag ''h3'' [(''class'', ''card__header'')] [NavigableString ''Dr A Lee'']]])
         (\<lambda>n. is_tag ''div'' n \<and> has_class ''card'' n))) = 1"
proof -
  let ?soup = "Tag ''[document]'' []
            [Tag ''div'' [(''class'', ''card'')] [NavigableString ''News''],
             Tag ''div'' [(''class'', ''card'')]
               [Tag ''h3'' [(''class'', ''card__header'')] [NavigableString ''Dr A Lee'']]]"
  have e: "extract_people_data ?soup None =
      [[(''name'', ''A Lee''), (''honorific'', ''Dr''), (''profile_url'', ''N/A''),
        (''title'', ''N/A''), (''category'', ''General'')]]"
    by code_simp
  have l: "length (extract_people_data ?soup None) =
     length (filter (\<lambda>c. find_tag (snd c) header_filter \<noteq> None) (find_all_elements ?soup card_filter))"
    using extracted_record_names[of ?soup None] by (rule conjunct1)
  have l1: "length (extract_people_data ?soup None) = 1" by (simp only: e list.size)
  show ?thesis
    using l l1 by (simp only: e list.set_intros(1) simp_thms)
qed

text \<open>
  C1 as stated fails: a card whose header link holds only an image, or only a script,
  has a header, so it is not skipped, and its record has the empty name (the text of the
  script is no part of the link's text).
\<close>

theorem extracted_record_names_counterexample:
  "extract_people_data
     (Tag ''[document]'' []
        [Tag ''div'' [(''class'', ''card'')]
           [Tag ''h3'' [(''class'', ''card__header'')]
              [Tag ''a'' [(''href'', ''/people/jane-doe'')] [Tag ''img'' [(''src'', ''jane.jpg'')] []]]]])
     None
   = [[(''name'', ''''), (''honorific'', ''''),
       (''profile_url'', ''https://cis.unimelb.edu.au/people/jane-doe''),
       (''title'', ''N/A''), (''category'', ''General'')]]
   \<and> map_of [(''name'', ''''), (''honorific'', ''''),
       (''profile_url'', ''https://cis.unimelb.edu.au/people/jane-doe''),
       (''title'', ''N/A''), (''category'', ''General'')] ''name'' = Some ''''
   \<and> extract_people_data
     (Tag ''[document]'' []
        [Tag ''div'' [(''class'', ''card'')]
           [Tag ''h3'' [(''class'', ''card__header'')]
              [Tag ''a'' [(''href'', ''/people/jane-doe'')]
                 [Tag ''script'' [] [OtherString Script ''x()'']]]]])
     None
   = [[(''name'', ''''), (''honorific'', ''''),
       (''profile_url'', ''https://cis.unimelb.edu.au/people/jane-doe''),
       (''title'', ''N/A''), (''category'', ''General'')]]"
  by code_simp

section \<open>Links without a target: claim C10\<close>

text \<open>
  C10. For every card whose header contains a link element with no \<open>href\<close> attribute, or an
  empty one, \<open>extract_people_data\<close> emits the record of that card with the bare site
  origin and a trailing slash as its profile URL; and every record emitted is the record
  of a card with a header, whose profile URL is \<open>N/A\<close> exactly when that header contains
  no link element at all.
\<close>

theorem link_without_href:
  "(c \<in> set (find_all_elements soup (\<lambda>n. is_tag ''div'' n \<and> has_class ''card'' n))
    \<and> find_tag (snd c) (\<lambda>n. is_tag ''h3'' n \<and> has_class ''card__header'' n) = Some header
    \<and> find_tag header (is_tag ''a'') = Some name_link
    \<and> (get_attr name_link ''href'' = None \<or> get_attr name_link ''href'' = Some '''')
    \<longrightarrow> (\<exists>category.
          setitem (title_field (snd c) (name_fields header [])) ''category'' category
            \<in> set (extract_people_data soup default_category)
          \<and> map_of (setitem (title_field (snd c) (name_fields header [])) ''category'' category)
               ''profile_url'' = Some ''https://cis.unimelb.edu.au/''))
   \<and> (\<forall>r\<in>set (extract_people_data soup default_category).
        \<exists>c\<in>set (find_all_elements soup (\<lambda>n. is_tag ''div'' n \<and> has_class ''card'' n)).
        \<exists>header category.
          find_tag (snd c) (\<lambda>n. is_tag ''h3'' n \<and> has_class ''card__header'' n) = Some header
          \<and> r = setitem (title_field (snd c) (name_fields header [])) ''category'' category
          \<and> (map_of r ''profile_url'' = Some ''N/A'' \<longleftrightarrow> find_tag header (is_tag ''a'') = None))"
proof (intro conjI impI ballI)
  assume a: "c \<in> set (find_all_elements soup card_filter)
    \<and> find_tag (snd c) header_filter = Some header
    \<and> find_tag header (is_tag ''a'') = Some name_link
    \<and> (get_attr name_link ''href'' = None \<or> get_attr name_link ''href'' = Some '''')"
  then obtain cat' where m: "person_record c header cat' \<in> set (extract_people_data soup default_category)"
    unfolding extract_people_data_loop using extract_loop_has by blast
  have "map_of (person_record c header cat') ''profile_url'' = Some (profile_url '''')"
    using a by (auto simp only: person_record_url name_fields_url option.case)
  then show "\<exists>category. person_record c header category \<in> set (extract_people_data soup default_category)
      \<and> map_of (person_record c header category) ''profile_url'' = Some ''https://cis.unimelb.edu.au/''"
    using m by (auto simp only: profile_url_empty)
next
  fix r
  assume "r \<in> set (extract_people_data soup default_category)"
  then obtain c h cat' where c: "c \<in> set (find_all_elements soup card_filter)"
    and h: "find_tag (snd c) header_filter = Some h" and r: "r = person_record c h cat'"
    unfolding extract_people_data_loop using extract_loop_mem by blast
  have iff: "map_of r ''profile_url'' = Some ''N/A'' \<longleftrightarrow> find_tag h (is_tag ''a'') = None"
    unfolding r person_record_url name_fields_url
    by (cases "find_tag h (is_tag ''a'')") (simp_all add: profile_url_not_na)
  show "\<exists>c\<in>set (find_all_elements soup card_filter). \<exists>header category.
          find_tag (snd c) header_filter = Some header
          \<and> r = person_record c header category
          \<and> (map_of r ''profile_url'' = Some ''N/A'' \<longleftrightarrow> find_tag header (is_tag ''a'') = None)"
    by (rule bexI[OF _ c], rule exI[of _ h], rule exI[of _ cat'], intro conjI, rule h, rule r, rule iff)
qed

text \<open>The theorem on a card whose header link has no \<open>href\<close>.\<close>

theorem link_without_href_witness:
  "([Tag ''[document]'' []
       [Tag ''div'' [(''class'', ''card'')]
          [Tag ''h3'' [(''class'', ''card__header'')] [Tag ''a'' [] [NavigableString ''Dr A Lee'']]]]],
     Tag ''div'' [(''class'', ''card'')]
       [Tag ''h3'' [(''class'', ''card__header'')] [Tag ''a'' [] [NavigableString ''Dr A Lee'']]])
     \<in> set (find_all_elements
         (Tag ''[document]'' []
            [Tag ''div'' [(''class'', ''card'')]
               [Tag ''h3'' [(''class'', ''card__header'')] [Tag ''a'' [] [NavigableString ''Dr A Lee'']]]])
         (\<lambda>n. is_tag ''div'' n \<and> has_class ''card'' n))
   \<and> find_tag (Tag ''div'' [(''class'', ''card'')]
          [Tag ''h3'' [(''class'', ''card__header'')] [Tag ''a'' [] [NavigableString ''Dr A Lee'']]])
        (\<lambda>n. is_tag ''h3'' n \<and> has_class ''card__header'' n)
      = Some (Tag ''h3'' [(''class'', ''card__header'')] [Tag ''a'' [] [NavigableString ''Dr A Lee'']])
   \<and> find_tag (Tag ''h3'' [(''class'', ''card__header'')] [Tag ''a'' [] [NavigableString ''Dr A Lee'']])
        (is_tag ''a'')
      = Some (Tag ''a'' [] [NavigableString ''Dr A Lee''])
   \<and> get_attr (Tag ''a'' [] [NavigableString ''Dr A Lee'']) ''href'' = None
   \<and> extract_people_data
        (Tag ''[document]'' []
           [Tag ''div'' [(''class'', ''card'')]
              [Tag ''h3'' [(''class'', ''card__header'')] [Tag ''a'' [] [NavigableString ''Dr A Lee'']]]])
        None
      = [[(''name'', ''A Lee''), (''honorific'', ''Dr''),
          (''profile_url'', ''https://cis.unimelb.edu.au/''),
          (''title'', ''N/A''), (''category'', ''General'')]]
   \<and> (\<exists>category.
        map_of (setitem (title_field
             (Tag ''div'' [(''class'', ''card'')]
                [Tag ''h3'' [(''class'', ''card__header'')] [Tag ''a'' [] [NavigableString ''Dr A Lee'']]])
             (name_fields
                (Tag ''h3'' [(''class'', ''card__header'')] [Tag ''a'' [] [NavigableString ''Dr A Lee'']]) []))
           ''category'' category) ''profile_url'' = Some ''https://cis.unimelb.edu.au/'')"
proof -
  let ?link = "Tag ''a'' [] [NavigableString ''Dr A Lee'']"
  let ?header = "Tag ''h3'' [(''class'', ''card__header'')] [?link]"
  let ?card = "Tag ''div'' [(''class'', ''card'')] [?header]"
  let ?soup = "Tag ''[document]'' [] [?card]"
  have a: "([?soup], ?card) \<in> set (find_all_elements ?soup card_filter)" by code_simp
  have b: "find_tag ?card header_filter = Some ?header" by code_simp
  have c: "find_tag ?header (is_tag ''a'') = Some ?link" by code_simp
  have d: "get_attr ?link ''href'' = None" by simp
  have e: "extract_people_data ?soup None
      = [[(''name'', ''A Lee''), (''honorific'', ''Dr''),
          (''profile_url'', ''https://cis.unimelb.edu.au/''),
          (''title'', ''N/A''), (''category'', ''General'')]]" by code_simp
  have "\<exists>category. person_record ([?soup], ?card) ?header category \<in> set (extract_people_data ?soup None)
      \<and> map_of (person_record ([?soup], ?card) ?header category) ''profile_url''
          = Some ''https://cis.unimelb.edu.au/''"
    using link_without_href[of "([?soup], ?card)" ?soup ?header ?link None] a b c d
    by (simp only: snd_conv simp_thms)
  then have f: "\<exists>category. map_of (person_record ([?soup], ?card) ?header category) ''profile_url''
          = Some ''https://cis.unimelb.edu.au/''" by blast
  show ?thesis
    using a b c d e f by (simp only: snd_conv simp_thms)
qed

section \<open>Categories along the scan: claim C5\<close>

text \<open>
  C5. The category is the state of a forward scan over the cards. A card with a header
  gets \<open>section_category\<close> of the running category, and the scan goes on from that value;
  a card with no header moves the running category too. \<open>section_category\<close> is the text of
  the nearest level-2 heading with an \<open>id\<close> before the card when that text is not empty
  and not \<open>Featured content\<close> or \<open>Site footer\<close>, and the running category unchanged
  otherwise; so as long as no later card meets another qualifying heading, every later
  record keeps the category. On the page of heading H1, cards A and B, heading H2, cards C
  and D, with no default category, A and B get the text of H1 and C and D the text of H2,
  also with a non-qualifying heading between C and D. The text of a heading is what
  \<open>get_text\<close> reads, so a script inside a boilerplate heading does not make it qualify.
\<close>

theorem category_forward_scan:
  "(find_tag (snd c) (\<lambda>n. is_tag ''h3'' n \<and> has_class ''card__header'' n) = Some header \<longrightarrow>
      categories (extract_loop (c # cards) current_category []) =
        Some (section_category c current_category)
          # categories (extract_loop cards (section_category c current_category) []))
   \<and> (find_tag (snd c) (\<lambda>n. is_tag ''h3'' n \<and> has_class ''card__header'' n) = None \<longrightarrow>
      categories (extract_loop (c # cards) current_category []) =
        categories (extract_loop cards (section_category c current_category) []))
   \<and> (find_previous c (\<lambda>n. is_tag ''h2'' n \<and> has_attr ''id'' n) = Some prev_section
      \<and> get_text_strip prev_section \<noteq> []
      \<and> get_text_strip prev_section \<noteq> ''Featured content''
      \<and> get_text_strip prev_section \<noteq> ''Site footer'' \<longrightarrow>
      section_category c current_category = get_text_strip prev_section)
   \<and> (find_previous c (\<lambda>n. is_tag ''h2'' n \<and> has_attr ''id'' n) = None
      \<or> (\<exists>other. find_previous c (\<lambda>n. is_tag ''h2'' n \<and> has_attr ''id'' n) = Some other
           \<and> (get_text_strip other = [] \<or> get_text_strip other = ''Featured content''
                \<or> get_text_strip other = ''Site footer'')) \<longrightarrow>
      section_category c current_category = current_category)
   \<and> ((\<forall>later\<in>set cards. section_category later current_category = current_category) \<longrightarrow>
      set (categories (extract_loop cards current_category [])) \<subseteq> {Some current_category})
   \<and> (strip ta \<noteq> [] \<and> strip ta \<noteq> ''Featured content'' \<and> strip ta \<noteq> ''Site footer''
      \<and> strip tb \<noteq> [] \<and> strip tb \<noteq> ''Featured content'' \<and> strip tb \<noteq> ''Site footer'' \<longrightarrow>
      categories (extract_people_data
        (Tag ''[document]'' []
           [Tag ''h2'' [(''id'', ia)] [NavigableString ta],
            Tag ''div'' [(''class'', ''card'')] [Tag ''h3'' [(''class'', ''card__header'')] [NavigableString na]],
            Tag ''div'' [(''class'', ''card'')] [Tag ''h3'' [(''class'', ''card__header'')] [NavigableString nb]],
            Tag ''h2'' [(''id'', ib)] [NavigableString tb],
            Tag ''div'' [(''class'', ''card'')] [Tag ''h3'' [(''class'', ''card__header'')] [NavigableString nc]],
            Tag ''div'' [(''class'', ''card'')] [Tag ''h3'' [(''class'', ''card__header'')] [NavigableString nd]]])
        None) = [Some (strip ta), Some (strip ta), Some (strip tb), Some (strip tb)])
   \<and> (strip ta \<noteq> [] \<and> strip ta \<noteq> ''Featured content'' \<and> strip ta \<noteq> ''Site footer''
      \<and> strip tb \<noteq> [] \<and> strip tb \<noteq> ''Featured content'' \<and> strip tb \<noteq> ''Site footer''
      \<and> (strip tc = [] \<or> strip tc = ''Featured content'' \<or> strip tc = ''Site footer'') \<longrightarrow>
      categories (extract_people_data
        (Tag ''[document]'' []
           [Tag ''h2'' [(''id'', ia)] [NavigableString ta],
            Tag ''div'' [(''class'', ''card'')] [Tag ''h3'' [(''class'', ''card__header'')] [NavigableString na]],
            Tag ''div'' [(''class'', ''card'')] [Tag ''h3'' [(''class'', ''card__header'')] [NavigableString nb]],
            Tag ''h2'' [(''id'', ib)] [NavigableString tb],
            Tag ''div'' [(''class'', ''card'')] [Tag ''h3'' [(''class'', ''card__header'')] [NavigableString nc]],
            Tag ''h2'' [(''id'', ic)] [NavigableString tc],
            Tag ''div'' [(''class'', ''card'')] [Tag ''h3'' [(''class'', ''card__header'')] [NavigableString nd]]])
        None) = [Some (strip ta), Some (strip ta), Some (strip tb), Some (strip tb)])
   \<and> (strip tc = [] \<or> strip tc = ''Featured content'' \<or> strip tc = ''Site footer'' \<longrightarrow>
      categories (extract_people_data
        (Tag ''[document]'' []
           [Tag ''h2'' [(''id'', ic)]
              [NavigableString tc, Tag ''script'' [] [OtherString Script js]],
            Tag ''div'' [(''class'', ''card'')] [Tag ''h3'' [(''class'', ''card__header'')] [NavigableString nd]]])
        None) = [Some ''General''])"
proof (intro conjI impI)
  assume "find_tag (snd c) header_filter = Some header"
  then show "categories (extract_loop (c # cards) current_category []) =
        Some (section_category c current_category)
          # categories (extract_loop cards (section_category c current_category) [])"
    by (rule categories_emit)
next
  assume "find_tag (snd c) header_filter = None"
  then show "categories (extract_loop (c # cards) current_category []) =
        categories (extract_loop cards (section_category c current_category) [])"
    by (rule categories_skip)
next
  assume "find_previous c section_filter = Some prev_section
      \<and> get_text_strip prev_section \<noteq> []
      \<and> get_text_strip prev_section \<noteq> ''Featured content''
      \<and> get_text_strip prev_section \<noteq> ''Site footer''"
  then show "section_category c current_category = get_text_strip prev_section"
    using section_category_qualifying[of c prev_section current_category] by blast
next
  assume "find_previous c section_filter = None
      \<or> (\<exists>other. find_previous c section_filter = Some other
           \<and> (get_text_strip other = [] \<or> get_text_strip other = ''Featured content''
                \<or> get_text_strip other = ''Site footer''))"
  then show "section_category c current_category = current_category"
    by (rule section_category_other)
next
  assume "\<forall>later\<in>set cards. section_category later current_category = current_category"
  then show "set (categories (extract_loop cards current_category [])) \<subseteq> {Some current_category}"
    by (rule categories_stable)
next
  assume "strip ta \<noteq> [] \<and> strip ta \<noteq> ''Featured content'' \<and> strip ta \<noteq> ''Site footer''
      \<and> strip tb \<noteq> [] \<and> strip tb \<noteq> ''Featured content'' \<and> strip tb \<noteq> ''Site footer''"
  then show "categories (extract_people_data
        (Tag ''[document]'' []
           [Tag ''h2'' [(''id'', ia)] [NavigableString ta],
            Tag ''div'' [(''class'', ''card'')] [Tag ''h3'' [(''class'', ''card__header'')] [NavigableString na]],
            Tag ''div'' [(''class'', ''card'')] [Tag ''h3'' [(''class'', ''card__header'')] [NavigableString nb]],
            Tag ''h2'' [(''id'', ib)] [NavigableString tb],
            Tag ''div'' [(''class'', ''card'')] [Tag ''h3'' [(''class'', ''card__header'')] [NavigableString nc]],
            Tag ''div'' [(''class'', ''card'')] [Tag ''h3'' [(''class'', ''card__header'')] [NavigableString nd]]])
        None) = [Some (strip ta), Some (strip ta), Some (strip tb), Some (strip tb)]"
    by (intro scenario_two_sections) blast+
next
  assume "strip ta \<noteq> [] \<and> strip ta \<noteq> ''Featured content'' \<and> strip ta \<noteq> ''Site footer''
      \<and> strip tb \<noteq> [] \<and> strip tb \<noteq> ''Featured content'' \<and> strip tb \<noteq> ''Site footer''
      \<and> (strip tc = [] \<or> strip tc = ''Featured content'' \<or> strip tc = ''Site footer'')"
  then show "categories (extract_people_data
        (Tag ''[document]'' []
           [Tag ''h2'' [(''id'', ia)] [NavigableString ta],
            Tag ''div'' [(''class'', ''card'')] [Tag ''h3'' [(''class'', ''card__header'')] [NavigableString na]],
            Tag ''div'' [(''class'', ''card'')] [Tag ''h3'' [(''class'', ''card__header'')] [NavigableString nb]],
            Tag ''h2'' [(''id'', ib)] [NavigableString tb],
            Tag ''div'' [(''class'', ''card'')] [Tag ''h3'' [(''class'', ''card__header'')] [NavigableString nc]],
            Tag ''h2'' [(''id'', ic)] [NavigableString tc],
            Tag ''div'' [(''class'', ''card'')] [Tag ''h3'' [(''class'', ''card__header'')] [NavigableString nd]]])
        None) = [Some (strip ta), Some (strip ta), Some (strip tb), Some (strip tb)]"
    by (intro scenario_boilerplate_between) blast+
next
  assume "strip tc = [] \<or> strip tc = ''Featured content'' \<or> strip tc = ''Site footer''"
  then show "categories (extract_people_data
        (Tag ''[document]'' []
           [Tag ''h2'' [(''id'', ic)]
              [NavigableString tc, Tag ''script'' [] [OtherString Script js]],
            Tag ''div'' [(''class'', ''card'')] [Tag ''h3'' [(''class'', ''card__header'')] [NavigableString nd]]])
        None) = [Some ''General'']"
    by (rule scenario_script_in_heading)
qed

text \<open>
  The pages of the theorem with the headings \<open>Academic staff\<close> and \<open>Professional staff\<close>,
  and two headings that hold a script: \<open>Site footer\<close> stays boilerplate, and \<open>Staff\<close> is the
  category without the text of the script.
\<close>

theorem category_forward_scan_witness:
  "strip ''Academic staff'' = ''Academic staff''
   \<and> strip ''Professional staff'' = ''Professional staff''
   \<and> strip ''Site footer'' = ''Site footer''
   \<and> categories (extract_people_data
        (Tag ''[document]'' []
           [Tag ''h2'' [(''id'', ''academic'')] [NavigableString ''Academic staff''],
            Tag ''div'' [(''class'', ''card'')] [Tag ''h3'' [(''class'', ''card__header'')] [NavigableString ''Dr A Lee'']],
            Tag ''div'' [(''class'', ''card'')] [Tag ''h3'' [(''class'', ''card__header'')] [NavigableString ''Prof B Ng'']],
            Tag ''h2'' [(''id'', ''professional'')] [NavigableString ''Professional staff''],
            Tag ''div'' [(''class'', ''card'')] [Tag ''h3'' [(''class'', ''card__header'')] [NavigableString ''Ms C Wu'']],
            Tag ''div'' [(''class'', ''card'')] [Tag ''h3'' [(''class'', ''card__header'')] [NavigableString ''Mr D Roy'']]])
        None)
      = [Some ''Academic staff'', Some ''Academic staff'', Some ''Professional staff'', Some ''Professional staff'']
   \<and> categories (extract_people_data
        (Tag ''[document]'' []
           [Tag ''h2'' [(''id'', ''academic'')] [NavigableString ''Academic staff''],
            Tag ''div'' [(''class'', ''card'')] [Tag ''h3'' [(''class'', ''card__header'')] [NavigableString ''Dr A Lee'']],
            Tag ''div'' [(''class'', ''card'')] [Tag ''h3'' [(''class'', ''card__header'')] [NavigableString ''Prof B Ng'']],
            Tag ''h2'' [(''id'', ''professional'')] [NavigableString ''Professional staff''],
            Tag ''div'' [(''class'', ''card'')] [Tag ''h3'' [(''class'', ''card__header'')] [NavigableString ''Ms C Wu'']],
            Tag ''h2'' [(''id'', ''footer'')] [NavigableString ''Site footer''],
            Tag ''div'' [(''class'', ''card'')] [Tag ''h3'' [(''class'', ''card__header'')] [NavigableString ''Mr D Roy'']]])
        None)
      = [Some ''Academic staff'', Some ''Academic staff'', Some ''Professional staff'', Some ''Professional staff'']
   \<and> categories (extract_people_data
        (Tag ''[document]'' []
           [Tag ''h2'' [(''id'', ''footer'')]
              [NavigableString ''Site footer'', Tag ''script'' [] [OtherString Script ''var a=1;'']],
            Tag ''div'' [(''class'', ''card'')] [Tag ''h3'' [(''class'', ''card__header'')] [NavigableString ''Mr D Roy'']]])
        None)
      = [Some ''General'']
   \<and> categories (extract_people_data
        (Tag ''[document]'' []
           [Tag ''h2'' [(''id'', ''staff'')]
              [NavigableString ''Staff'', Tag ''script'' [] [OtherString Script ''var a=1;'']],
            Tag ''div'' [(''class'', ''card'')] [Tag ''h3'' [(''class'', ''card__header'')] [NavigableString ''Dr A Lee'']]])
        None)
      = [Some ''Staff'']"
proof -
  have a: "strip ''Academic staff'' = ''Academic staff''"
    by (simp add: strip_def lstrip_def rstrip_def is_space_def)
  have b: "strip ''Professional staff'' = ''Professional staff''"
    by (simp add: strip_def lstrip_def rstrip_def is_space_def)
  have c: "strip ''Site footer'' = ''Site footer''"
    by (simp add: strip_def lstrip_def rstrip_def is_space_def)
  note scan = category_forward_scan[where ta = "''Academic staff''" and tb = "''Professional staff''"
      and tc = "''Site footer''" and ia = "''academic''" and ib = "''professional''" and ic = "''footer''"
      and na = "''Dr A Lee''" and nb = "''Prof B Ng''" and nc = "''Ms C Wu''" and nd = "''Mr D Roy''"]
  note two = scan[THEN conjunct2, THEN conjunct2, THEN conjunct2, THEN conjunct2, THEN conjunct2,
      THEN conjunct1, unfolded a b]
  note three = scan[THEN conjunct2, THEN conjunct2, THEN conjunct2, THEN conjunct2, THEN conjunct2,
      THEN conjunct2, THEN conjunct1, unfolded a b c]
  note four = scan[where js = "''var a=1;''", THEN conjunct2, THEN conjunct2, THEN conjunct2,
      THEN conjunct2, THEN conjunct2, THEN conjunct2, THEN conjunct2, unfolded c]
  have d: "categories (extract_people_data
        (Tag ''[document]'' []
           [Tag ''h2'' [(''id'', ''academic'')] [NavigableString ''Academic staff''],
            Tag ''div'' [(''class'', ''card'')] [Tag ''h3'' [(''class'', ''card__header'')] [NavigableString ''Dr A Lee'']],
            Tag ''div'' [(''class'', ''card'')] [Tag ''h3'' [(''class'', ''card__header'')] [NavigableString ''Prof B Ng'']],
            Tag ''h2'' [(''id'', ''professional'')] [NavigableString ''Professional staff''],
            Tag ''div'' [(''class'', ''card'')] [Tag ''h3'' [(''class'', ''card__header'')] [NavigableString ''Ms C Wu'']],
            Tag ''div'' [(''class'', ''card'')] [Tag ''h3'' [(''class'', ''card__header'')] [NavigableString ''Mr D Roy'']]])
        None)
      = [Some ''Academic staff'', Some ''Academic staff'', Some ''Professional staff'', Some ''Professional staff'']"
    by (rule two[THEN mp]) simp
  have e: "categories (extract_people_data
        (Tag ''[document]'' []
           [Tag ''h2'' [(''id'', ''academic'')] [NavigableString ''Academic staff''],
            Tag ''div'' [(''class'', ''card'')] [Tag ''h3'' [(''class'', ''card__header'')] [NavigableString ''Dr A Lee'']],
            Tag ''div'' [(''class'', ''card'')] [Tag ''h3'' [(''class'', ''card__header'')] [NavigableString ''Prof B Ng'']],
            Tag ''h2'' [(''id'', ''professional'')] [NavigableString ''Professional staff''],
            Tag ''div'' [(''class'', ''card'')] [Tag ''h3'' [(''class'', ''card__header'')] [NavigableString ''Ms C Wu'']],
            Tag ''h2'' [(''id'', ''footer'')] [NavigableString ''Site footer''],
            Tag ''div'' [(''class'', ''card'')] [Tag ''h3'' [(''class'', ''card__header'')] [NavigableString ''Mr D Roy'']]])
        None)
      = [Some ''Academic staff'', Some ''Academic staff'', Some ''Professional staff'', Some ''Professional staff'']"
    by (rule three[THEN mp]) simp
  have f: "categories (extract_people_data
        (Tag ''[document]'' []
           [Tag ''h2'' [(''id'', ''footer'')]
              [NavigableString ''Site footer'', Tag ''script'' [] [OtherString Script ''var a=1;'']],
            Tag ''div'' [(''class'', ''card'')] [Tag ''h3'' [(''class'', ''card__header'')] [NavigableString ''Mr D Roy'']]])
        None)
      = [Some ''General'']"
    by (rule four[THEN mp]) simp
  have g: "categories (extract_people_data
        (Tag ''[document]'' []
           [Tag ''h2'' [(''id'', ''staff'')]
              [NavigableString ''Staff'', Tag ''script'' [] [OtherString Script ''var a=1;'']],
            Tag ''div'' [(''class'', ''card'')] [Tag ''h3'' [(''class'', ''card__header'')] [NavigableString ''Dr A Lee'']]])
        None)
      = [Some ''Staff'']"
    by code_simp
  show ?thesis using a b c d e f g by (intro conjI)
qed

section \<open>Facts about the orchestrator\<close>

lemma scrape_categories_prefix:
  "\<exists>extra. fst (scrape_categories w use_selenium category_links all_people log) = all_people @ extra"
proof (induction category_links arbitrary: all_people log)
  case Nil
  then show ?case by simp
next
  case (Cons link category_links)
  obtain category_name category_url where link: "link = (category_name, category_url)"
    by (cases link)
  obtain r log' where f: "fetch_page w category_url use_selenium log = (r, log')"
    by (cases "fetch_page w category_url use_selenium log")
  show ?case
  proof (cases r)
    case (Inl e)
    then show ?thesis using Cons[of all_people log'] link f by simp
  next
    case (Inr category_soup)
    obtain extra where "fst (scrape_categories w use_selenium category_links
        (all_people @ extract_people_data category_soup (Some category_name)) log')
       = (all_people @ extract_people_data category_soup (Some category_name)) @ extra"
      using Cons by blast
    then show ?thesis using link f Inr by (simp add: Let_def)
  qed
qed

lemma scrape_categories_failure:
  "fst (fetch_page w category_url use_selenium log) = Inl e \<Longrightarrow>
   scrape_categories w use_selenium ((category_name, category_url) # category_links) all_people log =
     scrape_categories w use_selenium category_links all_people
       (snd (fetch_page w category_url use_selenium log))"
  by (cases "fetch_page w category_url use_selenium log") simp

lemma main_after_landing:
  assumes "fetch_main_page w use_selenium (fetch_log s) = (Inr soup, use_selenium', log1)"
  shows "\<exists>extra log2. main w use_selenium scrape_subpages s =
     (Inr (extract_people_data soup None @ extra),
      \<lparr>fetch_log = log2,
       file_store = (if extract_people_data soup None @ extra = [] then file_store s
                     else (file_store s)(''people_data.json'' \<mapsto>
                            iterencode_list (extract_people_data soup None @ extra)))\<rparr>)"
proof (cases scrape_subpages)
  case False
  then have "main w use_selenium scrape_subpages s =
     (Inr (extract_people_data soup None @ []),
      \<lparr>fetch_log = log1,
       file_store = (if extract_people_data soup None @ [] = [] then file_store s
                     else (file_store s)(''people_data.json'' \<mapsto>
                            iterencode_list (extract_people_data soup None @ [])))\<rparr>)"
    using assms by (simp add: main_def save_to_json_def Let_def)
  then show ?thesis by blast
next
  case True
  obtain all_people log2 where sc: "scrape_categories w use_selenium'
      (find_category_links soup ''https://cis.unimelb.edu.au'') (extract_people_data soup None) log1
      = (all_people, log2)"
    by (cases "scrape_categories w use_selenium'
      (find_category_links soup ''https://cis.unimelb.edu.au'') (extract_people_data soup None) log1")
  obtain extra where e: "all_people = extract_people_data soup None @ extra"
    using scrape_categories_prefix[of w use_selenium'
        "find_category_links soup ''https://cis.unimelb.edu.au''" "extract_people_data soup None" log1] sc
    by auto
  have "main w use_selenium scrape_subpages s =
     (Inr all_people,
      \<lparr>fetch_log = log2,
       file_store = (if all_people = [] then file_store s
                     else (file_store s)(''people_data.json'' \<mapsto> iterencode_list all_people))\<rparr>)"
    using assms True sc by (simp add: main_def save_to_json_def Let_def)
  then show ?thesis unfolding e by blast
qed

lemma main_aborts:
  "fetch_main_page w use_selenium (fetch_log s) = (Inl e, use_selenium', log1) \<Longrightarrow>
   main w use_selenium scrape_subpages s = (Inl e, s\<lparr>fetch_log := log1\<rparr>)"
  by (simp add: main_def)

lemma landing_fallback_available:
  assumes "SELENIUM_AVAILABLE w"
    and "respond w log (Requests, ''https://cis.unimelb.edu.au/people'') = Inl e"
  shows "fetch_main_page w False log =
     (case respond w (log @ [(Requests, ''https://cis.unimelb.edu.au/people'')])
             (Selenium, ''https://cis.unimelb.edu.au/people'') of
        Inr soup \<Rightarrow>
          (Inr soup, False,
           log @ [(Requests, ''https://cis.unimelb.edu.au/people''),
                  (Selenium, ''https://cis.unimelb.edu.au/people'')])
      | Inl e1 \<Rightarrow>
          (respond w (log @ [(Requests, ''https://cis.unimelb.edu.au/people''),
                             (Selenium, ''https://cis.unimelb.edu.au/people'')])
             (Selenium, ''https://cis.unimelb.edu.au/people''), False,
           log @ [(Requests, ''https://cis.unimelb.edu.au/people''),
                  (Selenium, ''https://cis.unimelb.edu.au/people''),
                  (Selenium, ''https://cis.unimelb.edu.au/people'')]))"
  using assms
  by (simp add: fetch_main_page_def fetch_page_def fetch_page_requests_def
      fetch_page_selenium_def split: sum.splits)

lemma landing_fallback_unavailable:
  assumes "\<not> SELENIUM_AVAILABLE w"
    and "respond w log (Requests, ''https://cis.unimelb.edu.au/people'') = Inl e"
  shows "fetch_main_page w use_selenium log =
     (Inl e, False, log @ [(Requests, ''https://cis.unimelb.edu.au/people'')])"
  using assms
  by (simp add: fetch_main_page_def fetch_page_def fetch_page_requests_def
      fetch_page_selenium_def split: sum.splits)

section \<open>A failing category page: claim C6\<close>

text \<open>
  C6. In the sweep over the category pages, a failure of the fetch of one category is
  caught and the category is skipped: the loop goes on with the remaining links from the
  records accumulated so far, unchanged. Whatever the pages do, the records accumulated
  before the sweep are a prefix of its result, and once the landing page has been fetched
  \<open>main\<close> returns the accumulated list and not an exception, having written it to
  \<open>people_data.json\<close> (unless the list is empty, when \<open>main\<close> writes no file in any run).
\<close>

theorem category_failure_skipped:
  "(fst (fetch_page w category_url use_selenium log) = Inl e \<longrightarrow>
      scrape_categories w use_selenium ((category_name, category_url) # category_links) all_people log =
        scrape_categories w use_selenium category_links all_people
          (snd (fetch_page w category_url use_selenium log)))
   \<and> (\<exists>extra. fst (scrape_categories w use_selenium category_links all_people log) = all_people @ extra)
   \<and> (fetch_main_page w use_selenium (fetch_log s) = (Inr soup, use_selenium', log1) \<longrightarrow>
      (\<exists>extra log2. main w use_selenium scrape_subpages s =
         (Inr (extract_people_data soup None @ extra),
          \<lparr>fetch_log = log2,
           file_store = (if extract_people_data soup None @ extra = [] then file_store s
                         else (file_store s)(''people_data.json'' \<mapsto>
                                iterencode_list (extract_people_data soup None @ extra)))\<rparr>)))"
  using scrape_categories_failure[of w category_url use_selenium log e category_name category_links all_people]
    scrape_categories_prefix[of w use_selenium category_links all_people log]
    main_after_landing[of w use_selenium s soup use_selenium' log1 scrape_subpages]
  by blast

text \<open>
  The theorem on a run whose landing page has one card and links to the categories A and
  B, where the page of A cannot be fetched: the record of the landing page and the record
  found on the page of B are returned and written.
\<close>

theorem category_failure_skipped_witness:
  "fetch_main_page
     \<lparr>SELENIUM_AVAILABLE = False,
       respond = (\<lambda>log a.
          if snd a = ''https://cis.unimelb.edu.au/a'' then Inl (FetchError ''404'')
          else Inr (Tag ''[document]'' []
              [Tag ''div'' [(''class'', ''card'')]
                 [Tag ''h3'' [(''class'', ''card__header'')] [NavigableString ''Dr A Lee'']],
               Tag ''ul'' [(''class'', ''pathfinder-3'')]
                 [Tag ''a'' [(''href'', ''/a'')] [Tag ''h3'' [] [NavigableString ''A'']],
                  Tag ''a'' [(''href'', ''/b'')] [Tag ''h3'' [] [NavigableString ''B'']]]]))\<rparr>
     False (fetch_log \<lparr>fetch_log = [], file_store = Map.empty\<rparr>)
   = (Inr (Tag ''[document]'' []
              [Tag ''div'' [(''class'', ''card'')]
                 [Tag ''h3'' [(''class'', ''card__header'')] [NavigableString ''Dr A Lee'']],
               Tag ''ul'' [(''class'', ''pathfinder-3'')]
                 [Tag ''a'' [(''href'', ''/a'')] [Tag ''h3'' [] [NavigableString ''A'']],
                  Tag ''a'' [(''href'', ''/b'')] [Tag ''h3'' [] [NavigableString ''B'']]]]), False, [(Requests, ''https://cis.unimelb.edu.au/people'')])
   \<and> fst (fetch_page
     \<lparr>SELENIUM_AVAILABLE = False,
       respond = (\<lambda>log a.
          if snd a = ''https://cis.unimelb.edu.au/a'' then Inl (FetchError ''404'')
          else Inr (Tag ''[document]'' []
              [Tag ''div'' [(''class'', ''card'')]
                 [Tag ''h3'' [(''class'', ''card__header'')] [NavigableString ''Dr A Lee'']],
               Tag ''ul'' [(''class'', ''pathfinder-3'')]
                 [Tag ''a'' [(''href'', ''/a'')] [Tag ''h3'' [] [NavigableString ''A'']],
                  Tag ''a'' [(''href'', ''/b'')] [Tag ''h3'' [] [NavigableString ''B'']]]]))\<rparr>
     ''https://cis.unimelb.edu.au/a'' False [(Requests, ''https://cis.unimelb.edu.au/people'')]) = Inl (FetchError ''404'')
   \<and> scrape_categories
     \<lparr>SELENIUM_AVAILABLE = False,
       respond = (\<lambda>log a.
          if snd a = ''https://cis.unimelb.edu.au/a'' then Inl (FetchError ''404'')
          else Inr (Tag ''[document]'' []
              [Tag ''div'' [(''class'', ''card'')]
                 [Tag ''h3'' [(''class'', ''card__header'')] [NavigableString ''Dr A Lee'']],
               Tag ''ul'' [(''class'', ''pathfinder-3'')]
                 [Tag ''a'' [(''href'', ''/a'')] [Tag ''h3'' [] [NavigableString ''A'']],
                  Tag ''a'' [(''href'', ''/b'')] [Tag ''h3'' [] [NavigableString ''B'']]]]))\<rparr>
     False [(''A'', ''https://cis.unimelb.edu.au/a''), (''B'', ''https://cis.unimelb.edu.au/b'')]
     [[(''name'', ''A Lee''), (''honorific'', ''Dr''), (''profile_url'', ''N/A''),
        (''title'', ''N/A''), (''category'', ''General'')]]
     [(Requests, ''https://cis.unimelb.edu.au/people'')]
   = scrape_categories
     \<lparr>SELENIUM_AVAILABLE = False,
       respond = (\<lambda>log a.
          if snd a = ''https://cis.unimelb.edu.au/a'' then Inl (FetchError ''404'')
          else Inr (Tag ''[document]'' []
              [Tag ''div'' [(''class'', ''card'')]
                 [Tag ''h3'' [(''class'', ''card__header'')] [NavigableString ''Dr A Lee'']],
               Tag ''ul'' [(''class'', ''pathfinder-3'')]
                 [Tag ''a'' [(''href'', ''/a'')] [Tag ''h3'' [] [NavigableString ''A'']],
                  Tag ''a'' [(''href'', ''/b'')] [Tag ''h3'' [] [NavigableString ''B'']]]]))\<rparr>
     False [(''B'', ''https://cis.unimelb.edu.au/b'')]
     [[(''name'', ''A Lee''), (''honorific'', ''Dr''), (''profile_url'', ''N/A''),
        (''title'', ''N/A''), (''category'', ''General'')]]
     [(Requests, ''https://cis.unimelb.edu.au/people''), (Requests, ''https://cis.unimelb.edu.au/a'')]
   \<and> fst (main
     \<lparr>SELENIUM_AVAILABLE = False,
       respond = (\<lambda>log a.
          if snd a = ''https://cis.unimelb.edu.au/a'' then Inl (FetchError ''404'')
          else Inr (Tag ''[document]'' []
              [Tag ''div'' [(''class'', ''card'')]
                 [Tag ''h3'' [(''class'', ''card__header'')] [NavigableString ''Dr A Lee'']],
               Tag ''ul'' [(''class'', ''pathfinder-3'')]
                 [Tag ''a'' [(''href'', ''/a'')] [Tag ''h3'' [] [NavigableString ''A'']],
                  Tag ''a'' [(''href'', ''/b'')] [Tag ''h3'' [] [NavigableString ''B'']]]]))\<rparr>
     False True \<lparr>fetch_log = [], file_store = Map.empty\<rparr>)
   = Inr [[(''name'', ''A Lee''), (''honorific'', ''Dr''), (''profile_url'', ''N/A''),
        (''title'', ''N/A''), (''category'', ''General'')],
       [(''name'', ''A Lee''), (''honorific'', ''Dr''), (''profile_url'', ''N/A''),
        (''title'', ''N/A''), (''category'', ''B'')]]
   \<and> file_store (snd (main
     \<lparr>SELENIUM_AVAILABLE = False,
       respond = (\<lambda>log a.
          if snd a = ''https://cis.unimelb.edu.au/a'' then Inl (FetchError ''404'')
          else Inr (Tag ''[document]'' []
              [Tag ''div'' [(''class'', ''card'')]
                 [Tag ''h3'' [(''class'', ''card__header'')] [NavigableString ''Dr A Lee'']],
               Tag ''ul'' [(''class'', ''pathfinder-3'')]
                 [Tag ''a'' [(''href'', ''/a'')] [Tag ''h3'' [] [NavigableString ''A'']],
                  Tag ''a'' [(''href'', ''/b'')] [Tag ''h3'' [] [NavigableString ''B'']]]]))\<rparr>
     False True \<lparr>fetch_log = [], file_store = Map.empty\<rparr>)) ''people_data.json''
   = Some (iterencode_list
      [[(''name'', ''A Lee''), (''honorific'', ''Dr''), (''profile_url'', ''N/A''),
        (''title'', ''N/A''), (''category'', ''General'')],
       [(''name'', ''A Lee''), (''honorific'', ''Dr''), (''profile_url'', ''N/A''),
        (''title'', ''N/A''), (''category'', ''B'')]])"
proof -
  let ?page = "Tag ''[document]'' []
              [Tag ''div'' [(''class'', ''card'')]
                 [Tag ''h3'' [(''class'', ''card__header'')] [NavigableString ''Dr A Lee'']],
               Tag ''ul'' [(''class'', ''pathfinder-3'')]
                 [Tag ''a'' [(''href'', ''/a'')] [Tag ''h3'' [] [NavigableString ''A'']],
                  Tag ''a'' [(''href'', ''/b'')] [Tag ''h3'' [] [NavigableString ''B'']]]]"
  let ?w = "\<lparr>SELENIUM_AVAILABLE = False,
       respond = (\<lambda>log a.
          if snd a = ''https://cis.unimelb.edu.au/a'' then Inl (FetchError ''404'')
          else Inr ?page)\<rparr>"
  let ?r = "[(''name'', ''A Lee''), (''honorific'', ''Dr''), (''profile_url'', ''N/A''),
        (''title'', ''N/A''), (''category'', ''General'')]"
  let ?rb = "[(''name'', ''A Lee''), (''honorific'', ''Dr''), (''profile_url'', ''N/A''),
        (''title'', ''N/A''), (''category'', ''B'')]"
  let ?s = "\<lparr>fetch_log = [], file_store = Map.empty\<rparr>"
  have fm: "fetch_main_page ?w False (fetch_log ?s) = (Inr ?page, False, [(Requests, ''https://cis.unimelb.edu.au/people'')])"
    by (simp add: fetch_main_page_def fetch_page_def fetch_page_requests_def)
  have f: "fetch_page ?w ''https://cis.unimelb.edu.au/a'' False [(Requests, ''https://cis.unimelb.edu.au/people'')] =
      (Inl (FetchError ''404''), [(Requests, ''https://cis.unimelb.edu.au/people''), (Requests, ''https://cis.unimelb.edu.au/a'')])"
    by (simp add: fetch_page_def fetch_page_requests_def)
  then have f1: "fst (fetch_page ?w ''https://cis.unimelb.edu.au/a'' False [(Requests, ''https://cis.unimelb.edu.au/people'')]) = Inl (FetchError ''404'')"
    by simp
  have g: "fetch_page ?w ''https://cis.unimelb.edu.au/b'' False [(Requests, ''https://cis.unimelb.edu.au/people''), (Requests, ''https://cis.unimelb.edu.au/a'')] =
      (Inr ?page, [(Requests, ''https://cis.unimelb.edu.au/people''), (Requests, ''https://cis.unimelb.edu.au/a''), (Requests, ''https://cis.unimelb.edu.au/b'')])"
    by (simp add: fetch_page_def fetch_page_requests_def)
  have x0: "extract_people_data ?page None = [?r]" by code_simp
  have xb: "extract_people_data ?page (Some ''B'') = [?rb]" by code_simp
  have links: "find_category_links ?page ''https://cis.unimelb.edu.au'' = [(''A'', ''https://cis.unimelb.edu.au/a''), (''B'', ''https://cis.unimelb.edu.au/b'')]"
    by code_simp
  have skip: "scrape_categories ?w False [(''A'', ''https://cis.unimelb.edu.au/a''), (''B'', ''https://cis.unimelb.edu.au/b'')] [?r] [(Requests, ''https://cis.unimelb.edu.au/people'')]
      = scrape_categories ?w False [(''B'', ''https://cis.unimelb.edu.au/b'')] [?r] [(Requests, ''https://cis.unimelb.edu.au/people''), (Requests, ''https://cis.unimelb.edu.au/a'')]"
    using category_failure_skipped[of ?w "''https://cis.unimelb.edu.au/a''" False "[(Requests, ''https://cis.unimelb.edu.au/people'')]" "FetchError ''404''"
        "''A''" "[(''B'', ''https://cis.unimelb.edu.au/b'')]" "[?r]"] f1
    by (simp only: f snd_conv simp_thms)
  have rest: "scrape_categories ?w False [(''B'', ''https://cis.unimelb.edu.au/b'')] [?r] [(Requests, ''https://cis.unimelb.edu.au/people''), (Requests, ''https://cis.unimelb.edu.au/a'')]
      = ([?r, ?rb], [(Requests, ''https://cis.unimelb.edu.au/people''), (Requests, ''https://cis.unimelb.edu.au/a''), (Requests, ''https://cis.unimelb.edu.au/b'')])"
    by (simp only: scrape_categories.simps g xb prod.case sum.case Let_def append.simps)
  have m: "main ?w False True ?s =
      (Inr [?r, ?rb],
       \<lparr>fetch_log = [(Requests, ''https://cis.unimelb.edu.au/people''), (Requests, ''https://cis.unimelb.edu.au/a''), (Requests, ''https://cis.unimelb.edu.au/b'')],
        file_store = Map.empty(''people_data.json'' \<mapsto> iterencode_list [?r, ?rb])\<rparr>)"
    unfolding main_def fm prod.case sum.case x0 links Let_def append.simps if_True skip rest
    by (simp add: save_to_json_def)
  show ?thesis
    using fm f1 skip by (simp only: m fst_conv snd_conv state.simps fun_upd_same simp_thms)
qed

section \<open>Fetching the landing page: claim C7\<close>

text \<open>
  C7, as amended. When the landing page is fetched with plain HTTP first and that fetch
  fails: if the scripted-browser fallback is available it is tried, by \<open>fetch_page\<close>, and
  when that attempt fails too it is tried once more, by the handler of \<open>main\<close>; the
  result of the last attempt is the result of the fetch. If the fallback is unavailable
  the original failure is the result at once, after no other attempt. A failure that is
  the result of the fetch ends \<open>main\<close> with that exception and leaves the files as they
  were.
\<close>

theorem landing_page_fallback:
  "(SELENIUM_AVAILABLE w \<and> respond w log (Requests, ''https://cis.unimelb.edu.au/people'') = Inl e \<longrightarrow>
      fetch_main_page w False log =
        (case respond w (log @ [(Requests, ''https://cis.unimelb.edu.au/people'')]) (Selenium, ''https://cis.unimelb.edu.au/people'') of
           Inr soup \<Rightarrow>
             (Inr soup, False, log @ [(Requests, ''https://cis.unimelb.edu.au/people''), (Selenium, ''https://cis.unimelb.edu.au/people'')])
         | Inl e1 \<Rightarrow>
             (respond w (log @ [(Requests, ''https://cis.unimelb.edu.au/people''), (Selenium, ''https://cis.unimelb.edu.au/people'')]) (Selenium, ''https://cis.unimelb.edu.au/people''),
              False,
              log @ [(Requests, ''https://cis.unimelb.edu.au/people''), (Selenium, ''https://cis.unimelb.edu.au/people''), (Selenium, ''https://cis.unimelb.edu.au/people'')])))
   \<and> (\<not> SELENIUM_AVAILABLE w \<and> respond w log (Requests, ''https://cis.unimelb.edu.au/people'') = Inl e \<longrightarrow>
      fetch_main_page w use_selenium log = (Inl e, False, log @ [(Requests, ''https://cis.unimelb.edu.au/people'')]))
   \<and> (fetch_main_page w use_selenium (fetch_log s) = (Inl e', use_selenium', log1) \<longrightarrow>
      main w use_selenium scrape_subpages s = (Inl e', s\<lparr>fetch_log := log1\<rparr>))"
  using landing_fallback_available[of w log e] landing_fallback_unavailable[of w log e use_selenium]
    main_aborts[of w use_selenium s e' use_selenium' log1 scrape_subpages]
  by blast

text \<open>
  The theorem in a world where plain HTTP is refused and the browser gets the page at its
  second attempt, and in a world with no browser.
\<close>

theorem landing_page_fallback_witness:
  "SELENIUM_AVAILABLE
     \<lparr>SELENIUM_AVAILABLE = True,
       respond = (\<lambda>log a.
          if fst a = Requests then Inl (FetchError ''403'')
          else if length log < 2 then Inl (FetchError ''challenge'')
          else Inr (Tag ''[document]'' [] [Tag ''div'' [(''class'', ''card'')] [Tag ''h3'' [(''class'', ''card__header'')] [NavigableString ''Dr A Lee'']]]))\<rparr>
   \<and> respond
     \<lparr>SELENIUM_AVAILABLE = True,
       respond = (\<lambda>log a.
          if fst a = Requests then Inl (FetchError ''403'')
          else if length log < 2 then Inl (FetchError ''challenge'')
          else Inr (Tag ''[document]'' [] [Tag ''div'' [(''class'', ''card'')] [Tag ''h3'' [(''class'', ''card__header'')] [NavigableString ''Dr A Lee'']]]))\<rparr>
     [] (Requests, ''https://cis.unimelb.edu.au/people'') = Inl (FetchError ''403'')
   \<and> fetch_main_page
     \<lparr>SELENIUM_AVAILABLE = True,
       respond = (\<lambda>log a.
          if fst a = Requests then Inl (FetchError ''403'')
          else if length log < 2 then Inl (FetchError ''challenge'')
          else Inr (Tag ''[document]'' [] [Tag ''div'' [(''class'', ''card'')] [Tag ''h3'' [(''class'', ''card__header'')] [NavigableString ''Dr A Lee'']]]))\<rparr>
     False []
   = (Inr (Tag ''[document]'' [] [Tag ''div'' [(''class'', ''card'')] [Tag ''h3'' [(''class'', ''card__header'')] [NavigableString ''Dr A Lee'']]]), False,
      [(Requests, ''https://cis.unimelb.edu.au/people''), (Selenium, ''https://cis.unimelb.edu.au/people''), (Selenium, ''https://cis.unimelb.edu.au/people'')])
   \<and> \<not> SELENIUM_AVAILABLE \<lparr>SELENIUM_AVAILABLE = False, respond = (\<lambda>log a. Inl (FetchError ''403''))\<rparr>
   \<and> fetch_main_page \<lparr>SELENIUM_AVAILABLE = False, respond = (\<lambda>log a. Inl (FetchError ''403''))\<rparr> True []
   = (Inl (FetchError ''403''), False, [(Requests, ''https://cis.unimelb.edu.au/people'')])
   \<and> main \<lparr>SELENIUM_AVAILABLE = False, respond = (\<lambda>log a. Inl (FetchError ''403''))\<rparr> True True \<lparr>fetch_log = [], file_store = Map.empty\<rparr>
   = (Inl (FetchError ''403''), \<lparr>fetch_log = [(Requests, ''https://cis.unimelb.edu.au/people'')], file_store = Map.empty\<rparr>)"
proof -
  let ?w = "\<lparr>SELENIUM_AVAILABLE = True,
       respond = (\<lambda>log a.
          if fst a = Requests then Inl (FetchError ''403'')
          else if length log < 2 then Inl (FetchError ''challenge'')
          else Inr (Tag ''[document]'' [] [Tag ''div'' [(''class'', ''card'')] [Tag ''h3'' [(''class'', ''card__header'')] [NavigableString ''Dr A Lee'']]]))\<rparr>"
  let ?v = "\<lparr>SELENIUM_AVAILABLE = False, respond = (\<lambda>log a. Inl (FetchError ''403''))\<rparr>"
  let ?s = "\<lparr>fetch_log = [], file_store = Map.empty\<rparr>"
  have a: "SELENIUM_AVAILABLE ?w" by simp
  have b: "respond ?w [] (Requests, ''https://cis.unimelb.edu.au/people'') = Inl (FetchError ''403'')" by simp
  have c: "fetch_main_page ?w False [] =
      (Inr (Tag ''[document]'' [] [Tag ''div'' [(''class'', ''card'')] [Tag ''h3'' [(''class'', ''card__header'')] [NavigableString ''Dr A Lee'']]]), False,
       [(Requests, ''https://cis.unimelb.edu.au/people''), (Selenium, ''https://cis.unimelb.edu.au/people''), (Selenium, ''https://cis.unimelb.edu.au/people'')])"
    using landing_page_fallback[of ?w "[]" "FetchError ''403''"] a b by simp
  have d: "\<not> SELENIUM_AVAILABLE ?v" by simp
  have e: "respond ?v [] (Requests, ''https://cis.unimelb.edu.au/people'') = Inl (FetchError ''403'')" by simp
  have f: "fetch_main_page ?v True [] = (Inl (FetchError ''403''), False, [(Requests, ''https://cis.unimelb.edu.au/people'')])"
    using landing_page_fallback[of ?v "[]" "FetchError ''403''" True] d e by simp
  then have "fetch_main_page ?v True (fetch_log ?s) = (Inl (FetchError ''403''), False, [(Requests, ''https://cis.unimelb.edu.au/people'')])"
    by simp
  then have g: "main ?v True True ?s = (Inl (FetchError ''403''), ?s\<lparr>fetch_log := [(Requests, ''https://cis.unimelb.edu.au/people'')]\<rparr>)"
    using landing_page_fallback[of ?v _ _ True ?s "FetchError ''403''" False "[(Requests, ''https://cis.unimelb.edu.au/people'')]" True]
    by blast
  show ?thesis using a b c d f g by simp
qed

text \<open>
  C7 as stated fails: where every fetch fails and the fallback is available, the fallback
  is attempted twice, not exactly once, before the failure propagates.
\<close>

theorem landing_page_fallback_counterexample:
  "SELENIUM_AVAILABLE \<lparr>SELENIUM_AVAILABLE = True, respond = (\<lambda>log a. Inl (FetchError ''403''))\<rparr>
   \<and> respond \<lparr>SELENIUM_AVAILABLE = True, respond = (\<lambda>log a. Inl (FetchError ''403''))\<rparr> [] (Requests, ''https://cis.unimelb.edu.au/people'') = Inl (FetchError ''403'')
   \<and> fetch_main_page \<lparr>SELENIUM_AVAILABLE = True, respond = (\<lambda>log a. Inl (FetchError ''403''))\<rparr> False []
   = (Inl (FetchError ''403''), False,
      [(Requests, ''https://cis.unimelb.edu.au/people''), (Selenium, ''https://cis.unimelb.edu.au/people''), (Selenium, ''https://cis.unimelb.edu.au/people'')])
   \<and> length (filter (\<lambda>a. fst a = Selenium)
        (snd (snd (fetch_main_page \<lparr>SELENIUM_AVAILABLE = True, respond = (\<lambda>log a. Inl (FetchError ''403''))\<rparr> False [])))) = 2"
  by (simp add: fetch_main_page_def fetch_page_def fetch_page_requests_def fetch_page_selenium_def)

section \<open>Facts about the JSON file\<close>

lemma hex_value_digit: "k < 16 \<Longrightarrow> hex_value (hex_digit k) = Some k"
proof -
  assume "k < 16"
  then have "k \<in> {0, 1, 2, 3, 4, 5, 6, 7, 8, 9, 10, 11, 12, 13, 14, 15}" by simp arith
  then show ?thesis
    by (auto simp: hex_digit_def hex_value_def)
qed

lemma decode_control:
  assumes "n < 32"
  shows "decode_uXXXX CHR ''0'' CHR ''0'' (hex_digit (n div 16)) (hex_digit (n mod 16)) = Some n"
proof -
  have z: "hex_value CHR ''0'' = Some 0" by (simp add: hex_value_def)
  have a: "hex_value (hex_digit (n div 16)) = Some (n div 16)"
    using assms by (intro hex_value_digit) simp
  have b: "hex_value (hex_digit (n mod 16)) = Some (n mod 16)"
    by (intro hex_value_digit) simp
  show ?thesis by (simp add: decode_uXXXX_def z a b)
qed

lemma scanstring_escape_char:
  "scanstring acc (escape_char c @ t) = scanstring (acc @ [c]) t"
proof -
  consider (bs) "c = CHR 0x5C" | (dq) "c = CHR 0x22" | (b) "c = CHR 0x08" | (f) "c = CHR 0x0C"
    | (n) "c = CHR 0x0A" | (r) "c = CHR 0x0D" | (t) "c = CHR 0x09"
    | (ctl) "c \<noteq> CHR 0x5C" "c \<noteq> CHR 0x22" "c \<noteq> CHR 0x08" "c \<noteq> CHR 0x0C" "c \<noteq> CHR 0x0A"
        "c \<noteq> CHR 0x0D" "c \<noteq> CHR 0x09" "(of_char c :: nat) < 32"
    | (lit) "c \<noteq> CHR 0x5C" "c \<noteq> CHR 0x22" "\<not> (of_char c :: nat) < 32"
    by blast
  then show ?thesis
  proof cases
    case bs
    then show ?thesis by (simp add: escape_char_def backslash_def)
  next
    case dq
    then show ?thesis by (simp add: escape_char_def backslash_def)
  next
    case b
    then show ?thesis by (simp add: escape_char_def backslash_def)
  next
    case f
    then show ?thesis by (simp add: escape_char_def backslash_def)
  next
    case n
    then show ?thesis by (simp add: escape_char_def backslash_def)
  next
    case r
    then show ?thesis by (simp add: escape_char_def backslash_def)
  next
    case t
    then show ?thesis by (simp add: escape_char_def backslash_def)
  next
    case ctl
    have e: "escape_char c = [CHR 0x5C, CHR ''u'', CHR ''0'', CHR ''0'',
        hex_digit ((of_char c :: nat) div 16), hex_digit ((of_char c :: nat) mod 16)]"
      using ctl by (simp add: escape_char_def)
    show ?thesis
      unfolding e using decode_control[OF ctl(8)] ctl(8) by simp
  next
    case lit
    then show ?thesis by (auto simp add: escape_char_def backslash_def)
  qed
qed

lemma scanstring_escaped:
  "scanstring acc (concat (map escape_char s) @ CHR 0x22 # rest) = Some (acc @ s, rest)"
proof (induction s arbitrary: acc)
  case Nil
  then show ?case by simp
next
  case (Cons c s)
  have "scanstring acc (concat (map escape_char (c # s)) @ CHR 0x22 # rest) =
      scanstring acc (escape_char c @ (concat (map escape_char s) @ CHR 0x22 # rest))"
    by simp
  also have "\<dots> = scanstring (acc @ [c]) (concat (map escape_char s) @ CHR 0x22 # rest)"
    by (rule scanstring_escape_char)
  also have "\<dots> = Some ((acc @ [c]) @ s, rest)" by (rule Cons.IH)
  finally show ?case by simp
qed

lemma scanstring_encoded:
  "scanstring [] (tl (encode_basestring s) @ rest) = Some (s, rest)"
  using scanstring_escaped[of "[]" s rest] by (simp add: encode_basestring_def)

lemma encode_basestring_quote: "encode_basestring s = CHR 0x22 # tl (encode_basestring s)"
  by (simp add: encode_basestring_def)

lemma skip_ws_Cons:
  "skip_ws (c # s) =
     (if c = CHR '' '' \<or> c = CHR 0x09 \<or> c = CHR 0x0A \<or> c = CHR 0x0D then skip_ws s else c # s)"
  by (simp add: skip_ws_def)

lemma skip_ws_Nil: "skip_ws [] = []"
  by (simp add: skip_ws_def)

lemma skip_ws_spaces: "skip_ws (replicate m CHR '' '' @ s) = skip_ws s"
  by (induction m) (simp_all add: skip_ws_Cons)

lemma skip_ws_newline_indent: "skip_ws (newline_indent level @ s) = skip_ws s"
  by (simp add: newline_indent_def skip_ws_Cons skip_ws_spaces)

lemma skip_ws_encoded: "skip_ws (encode_basestring s @ rest) = encode_basestring s @ rest"
  by (simp add: encode_basestring_def skip_ws_Cons)

lemma parse_pair_item:
  "parse_pair (tl (encode_basestring k) @ '': '' @ encode_basestring v @ rest) =
     Some ((k, v), skip_ws rest)"
proof -
  have a: "scanstring [] (tl (encode_basestring k) @ '': '' @ encode_basestring v @ rest) =
      Some (k, '': '' @ encode_basestring v @ rest)"
    by (rule scanstring_encoded)
  have b: "skip_ws ('': '' @ encode_basestring v @ rest) = CHR '':'' # CHR '' '' # encode_basestring v @ rest"
    by (simp add: skip_ws_Cons)
  have c: "skip_ws (CHR '' '' # encode_basestring v @ rest) = CHR 0x22 # tl (encode_basestring v) @ rest"
    by (simp add: skip_ws_Cons encode_basestring_def)
  have d: "scanstring [] (tl (encode_basestring v) @ rest) = Some (v, rest)"
    by (rule scanstring_encoded)
  show ?thesis
    by (simp only: parse_pair_def a b c d option.case prod.case list.case if_False not_False_eq_True
        simp_thms)
qed

lemma json_item_tl: "tl (json_item (k, v) @ s) = tl (encode_basestring k) @ '': '' @ encode_basestring v @ s"
  by (simp add: encode_basestring_def)

lemma json_items_quote:
  "join sep (map json_item (p # ps)) = CHR 0x22 # tl (join sep (map json_item (p # ps)))"
  by (cases p; cases ps) (simp_all add: encode_basestring_def)

lemma parse_pairs_items:
  "parse_pairs acc
     (tl (join ('','' @ newline_indent 2) (map json_item ((k, v) # ds))) @ newline_indent 1 @ ''}'' @ rest)
   = Some (acc @ (k, v) # ds, rest)"
proof (induction ds arbitrary: k v acc)
  case Nil
  have i: "tl (join ('','' @ newline_indent 2) (map json_item [(k, v)])) @ newline_indent 1 @ ''}'' @ rest
      = tl (encode_basestring k) @ '': '' @ encode_basestring v @ (newline_indent 1 @ ''}'' @ rest)"
    by (simp add: encode_basestring_def)
  have p: "parse_pair (tl (encode_basestring k) @ '': '' @ encode_basestring v @ (newline_indent 1 @ ''}'' @ rest))
      = Some ((k, v), CHR ''}'' # rest)"
    by (simp only: parse_pair_item skip_ws_newline_indent) (simp add: skip_ws_Cons)
  show ?case
    by (subst parse_pairs.simps) (simp only: i p, simp)
next
  case (Cons d ds)
  obtain k' v' where d: "d = (k', v')" by (cases d)
  let ?J = "join ('','' @ newline_indent 2) (map json_item ((k', v') # ds))"
  define body where "body = tl ?J @ newline_indent 1 @ ''}'' @ rest"
  define tail where "tail = newline_indent 2 @ ?J @ newline_indent 1 @ ''}'' @ rest"
  have i: "tl (join ('','' @ newline_indent 2) (map json_item ((k, v) # d # ds))) @ newline_indent 1 @ ''}'' @ rest
      = tl (encode_basestring k) @ '': '' @ encode_basestring v @ (CHR '','' # tail)"
    by (simp add: d encode_basestring_def tail_def)
  have p: "parse_pair (tl (encode_basestring k) @ '': '' @ encode_basestring v @ (CHR '','' # tail))
      = Some ((k, v), CHR '','' # tail)"
    by (simp only: parse_pair_item) (simp add: skip_ws_Cons)
  have q: "skip_ws tail = CHR 0x22 # body"
    unfolding tail_def body_def
    by (subst skip_ws_newline_indent, subst json_items_quote) (simp add: skip_ws_Cons)
  have r: "parse_pairs (acc @ [(k, v)]) body = Some ((acc @ [(k, v)]) @ (k', v') # ds, rest)"
    unfolding body_def by (rule Cons.IH)
  show ?case
    by (subst parse_pairs.simps) (simp only: i p, simp add: q r d del: parse_pairs.simps)
qed

lemma setitem_new: "k \<notin> fst ` set d \<Longrightarrow> setitem d k v = d @ [(k, v)]"
  by (induction d k v rule: setitem.induct) auto

lemma foldl_setitem_distinct:
  "distinct (map fst (acc @ pairs)) \<Longrightarrow>
   foldl (\<lambda>d (k, v). setitem d k v) acc pairs = acc @ pairs"
proof (induction pairs arbitrary: acc)
  case Nil
  then show ?case by simp
next
  case (Cons p pairs)
  obtain k v where p: "p = (k, v)" by (cases p)
  have n: "k \<notin> fst ` set acc" using Cons.prems p by auto
  have "distinct (map fst ((acc @ [(k, v)]) @ pairs))" using Cons.prems p by simp
  from Cons.IH[OF this] show ?case by (simp add: p setitem_new[OF n])
qed

lemma dict_of_distinct: "distinct (map fst pairs) \<Longrightarrow> dict_of pairs = pairs"
  using foldl_setitem_distinct[of "[]" pairs] by (simp add: dict_of_def)

lemma iterencode_dict_brace: "iterencode_dict d = CHR ''{'' # tl (iterencode_dict d)"
  by (simp add: iterencode_dict_def)

lemma JSONObject_encoded:
  assumes "distinct (map fst d)"
  shows "JSONObject (tl (iterencode_dict d) @ rest) = Some (d, rest)"
proof (cases d)
  case Nil
  then show ?thesis by (simp add: iterencode_dict_def JSONObject_def skip_ws_Cons)
next
  case (Cons p ps)
  obtain k v where p: "p = (k, v)" by (cases p)
  let ?J = "join ('','' @ newline_indent 2) (map json_item ((k, v) # ps))"
  define body where "body = tl ?J @ newline_indent 1 @ ''}'' @ rest"
  have i: "tl (iterencode_dict d) @ rest = newline_indent 2 @ ?J @ newline_indent 1 @ ''}'' @ rest"
    by (simp add: iterencode_dict_def Cons p)
  have s: "skip_ws (newline_indent 2 @ ?J @ newline_indent 1 @ ''}'' @ rest) = CHR 0x22 # body"
    unfolding body_def
    by (subst skip_ws_newline_indent, subst json_items_quote) (simp add: skip_ws_Cons)
  have r: "parse_pairs [] body = Some ([] @ (k, v) # ps, rest)"
    unfolding body_def by (rule parse_pairs_items)
  have dd: "dict_of ((k, v) # ps) = d"
    using dict_of_distinct[OF assms] by (simp add: Cons p)
  show ?thesis
    unfolding i JSONObject_def s using r dd by (simp add: Cons p)
qed

lemma json_dicts_brace:
  "join sep (map iterencode_dict (d # ds)) = CHR ''{'' # tl (join sep (map iterencode_dict (d # ds)))"
  by (cases ds) (simp_all add: iterencode_dict_def)

lemma parse_values_dicts:
  assumes "\<forall>x\<in>set (d # ds). distinct (map fst x)"
  shows "parse_values acc
     (join ('','' @ newline_indent 1) (map iterencode_dict (d # ds)) @ newline_indent 0 @ '']'' @ rest)
   = Some (acc @ d # ds, rest)"
  using assms
proof (induction ds arbitrary: d acc)
  case Nil
  then have dd: "distinct (map fst d)" by simp
  define tail where "tail = newline_indent 0 @ '']'' @ rest"
  have i: "join ('','' @ newline_indent 1) (map iterencode_dict [d]) @ newline_indent 0 @ '']'' @ rest
      = CHR ''{'' # tl (iterencode_dict d) @ tail"
    by (simp add: tail_def iterencode_dict_def)
  have o: "JSONObject (tl (iterencode_dict d) @ tail) = Some (d, tail)"
    using dd by (rule JSONObject_encoded)
  have s: "skip_ws tail = CHR '']'' # rest"
    unfolding tail_def by (subst skip_ws_newline_indent) (simp add: skip_ws_Cons)
  show ?case
    by (subst parse_values.simps) (simp only: i, simp add: o s del: parse_values.simps)
next
  case (Cons e ds)
  then have dd: "distinct (map fst d)" and rest': "\<forall>x\<in>set (e # ds). distinct (map fst x)"
    by simp_all
  let ?J = "join ('','' @ newline_indent 1) (map iterencode_dict (e # ds))"
  define body where "body = ?J @ newline_indent 0 @ '']'' @ rest"
  define after where "after = newline_indent 1 @ body"
  define tail where "tail = CHR '','' # after"
  have i: "join ('','' @ newline_indent 1) (map iterencode_dict (d # e # ds)) @ newline_indent 0 @ '']'' @ rest
      = CHR ''{'' # tl (iterencode_dict d) @ tail"
    by (simp add: tail_def after_def body_def iterencode_dict_def)
  have o: "JSONObject (tl (iterencode_dict d) @ tail) = Some (d, tail)"
    using dd by (rule JSONObject_encoded)
  have s: "skip_ws tail = CHR '','' # after"
    by (simp add: tail_def skip_ws_Cons)
  have "\<exists>t. body = CHR ''{'' # t"
    unfolding body_def by (subst json_dicts_brace) simp
  then have b: "body = CHR ''{'' # tl body" by auto
  have t: "skip_ws after = body"
    unfolding after_def
    by (subst skip_ws_newline_indent, subst b, subst (2) b) (simp add: skip_ws_Cons)
  have r: "parse_values (acc @ [d]) body = Some ((acc @ [d]) @ e # ds, rest)"
    unfolding body_def using rest' by (rule Cons.IH)
  show ?case
    by (subst parse_values.simps) (simp only: i, simp add: o s t r del: parse_values.simps)
qed

lemma json_load_encoded:
  assumes "\<forall>d\<in>set data. distinct (map fst d)"
  shows "json_load (iterencode_list data) = Some data"
proof (cases data)
  case Nil
  then show ?thesis
    by (simp add: iterencode_list_def json_load_def JSONArray_def skip_ws_Cons skip_ws_Nil)
next
  case (Cons d ds)
  let ?J = "join ('','' @ newline_indent 1) (map iterencode_dict (d # ds))"
  define body where "body = ?J @ newline_indent 0 @ '']'' @ []"
  define after where "after = newline_indent 1 @ body"
  have i: "iterencode_list data = CHR ''['' # after"
    by (simp add: iterencode_list_def Cons body_def after_def)
  have "\<exists>t. body = CHR ''{'' # t"
    unfolding body_def by (subst json_dicts_brace) simp
  then obtain rest' where b: "body = CHR ''{'' # rest'" by blast
  have t: "skip_ws after = CHR ''{'' # rest'"
    unfolding after_def by (subst skip_ws_newline_indent, subst b) (simp add: skip_ws_Cons)
  have r: "parse_values [] body = Some ([] @ d # ds, [])"
    unfolding body_def using assms Cons by (intro parse_values_dicts) simp
  then have r': "parse_values [] (CHR ''{'' # rest') = Some (data, [])"
    using b Cons by simp
  show ?thesis
    unfolding i
    by (simp add: json_load_def JSONArray_def skip_ws_Cons skip_ws_Nil t r' del: parse_values.simps)
qed

lemma setitem_keys:
  "map fst (setitem d k v) = (if k \<in> set (map fst d) then map fst d else map fst d @ [k])"
  by (induction d k v rule: setitem.induct) auto

lemma person_record_keys:
  "map fst (person_record c header cat) = [''name'', ''honorific'', ''profile_url'', ''title'', ''category'']"
  by (simp add: name_fields_def title_field_def setitem_keys Let_def case_prod_beta
      split: option.splits)

lemma extracted_keys:
  "d \<in> set (extract_people_data soup default_category) \<Longrightarrow>
   map fst d = [''name'', ''honorific'', ''profile_url'', ''title'', ''category'']"
  unfolding extract_people_data_loop using extract_loop_mem person_record_keys by blast

lemma unique_keys_seen: "set ks \<subseteq> set seen \<Longrightarrow> unique_keys seen ks = seen"
  by (induction ks arbitrary: seen) auto

lemma unique_keys_new: "distinct (seen @ ks) \<Longrightarrow> unique_keys seen ks = seen @ ks"
  by (induction ks arbitrary: seen) auto

lemma unique_keys_append: "unique_keys seen (xs @ ys) = unique_keys (unique_keys seen xs) ys"
  by (induction xs arbitrary: seen) auto

lemma map_of_keys: "distinct (map fst d) \<Longrightarrow> map (map_of d) (map fst d) = map (\<lambda>(k, v). Some v) d"
proof (induction d)
  case Nil
  then show ?case by simp
next
  case (Cons p d)
  obtain k v where p: "p = (k, v)" by (cases p)
  have "map (map_of (p # d)) (map fst d) = map (map_of d) (map fst d)"
    using Cons.prems p by (intro map_cong) auto
  then show ?case using Cons p by simp
qed

lemma data_frame_records:
  assumes "\<forall>d\<in>set data. map fst d = ks" and "distinct ks" and "data \<noteq> []"
  shows "data_frame data = DataFrame ks (map (map (\<lambda>(k, v). Some v)) data)"
proof -
  obtain d ds where data: "data = d # ds" using assms(3) by (cases data) auto
  have "set (concat (map (map fst) ds)) \<subseteq> set ks" using assms(1) data by auto
  then have c: "unique_keys [] (concat (map (map fst) data)) = ks"
    using assms(1,2) data
    by (simp add: unique_keys_append unique_keys_new unique_keys_seen)
  have row: "map (map_of x) ks = map (\<lambda>(k, v). Some v) x" if "x \<in> set data" for x
  proof -
    have k: "map fst x = ks" using assms(1) that by blast
    then have "distinct (map fst x)" using assms(2) by simp
    from map_of_keys[OF this] show ?thesis unfolding k .
  qed
  have "map (\<lambda>d. map (map_of d) ks) data = map (map (\<lambda>(k, v). Some v)) data"
    by (rule map_cong[OF refl]) (rule row)
  then show ?thesis by (simp add: data_frame_def c)
qed

section \<open>Writing and reading back: claim C8\<close>

text \<open>
  C8. For every list of records (dicts with distinct keys), the text \<open>save_to_json\<close>
  writes is read back by \<open>json.load\<close> as the same list: the same number of records, in
  the same order, with the same keys and values; and \<open>load_data\<close> returns the data frame
  of that list. For a non-empty list of person records, the frame has the columns name,
  honorific, profile_url, title and category and one row per record, in order, holding
  the record's values. Every record \<open>extract_people_data\<close> returns is such a person
  record.
\<close>

theorem json_round_trip:
  "((\<forall>d\<in>set data. distinct (map fst d)) \<longrightarrow>
      json_load (iterencode_list data) = Some data
      \<and> load_data (save_to_json data ''people_data.json'' files) = Inr (data_frame data))
   \<and> ((\<forall>d\<in>set data. map fst d = [''name'', ''honorific'', ''profile_url'', ''title'', ''category''])
        \<and> data \<noteq> [] \<longrightarrow>
      load_data (save_to_json data ''people_data.json'' files) =
        Inr (DataFrame [''name'', ''honorific'', ''profile_url'', ''title'', ''category'']
               (map (map (\<lambda>(k, v). Some v)) data)))
   \<and> (\<forall>d\<in>set (extract_people_data soup default_category).
        map fst d = [''name'', ''honorific'', ''profile_url'', ''title'', ''category''])"
proof (intro conjI impI ballI)
  assume a: "\<forall>d\<in>set data. distinct (map fst d)"
  then show l: "json_load (iterencode_list data) = Some data" by (rule json_load_encoded)
  show "load_data (save_to_json data ''people_data.json'' files) = Inr (data_frame data)"
    by (simp add: load_data_def save_to_json_def l)
next
  assume a: "(\<forall>d\<in>set data. map fst d = [''name'', ''honorific'', ''profile_url'', ''title'', ''category''])
        \<and> data \<noteq> []"
  then have "\<forall>d\<in>set data. distinct (map fst d)" by simp
  then have l: "json_load (iterencode_list data) = Some data" by (rule json_load_encoded)
  have f: "data_frame data = DataFrame [''name'', ''honorific'', ''profile_url'', ''title'', ''category'']
               (map (map (\<lambda>(k, v). Some v)) data)"
    using a by (intro data_frame_records) simp_all
  show "load_data (save_to_json data ''people_data.json'' files) =
        Inr (DataFrame [''name'', ''honorific'', ''profile_url'', ''title'', ''category'']
               (map (map (\<lambda>(k, v). Some v)) data))"
    by (simp add: load_data_def save_to_json_def l f)
next
  fix d
  assume "d \<in> set (extract_people_data soup default_category)"
  then show "map fst d = [''name'', ''honorific'', ''profile_url'', ''title'', ''category'']"
    by (rule extracted_keys)
qed

text \<open>
  The theorem on two records, one with a quote, a backslash, a line break and an accented
  letter in its title; and the text written for a list of one small dict.
\<close>

theorem json_round_trip_witness:
  "map fst [(''name'', ''A Lee''), (''honorific'', ''Dr''), (''profile_url'', ''N/A''),
            (''title'', [CHR 0x22, CHR ''A'', CHR ''I'', CHR 0x22, CHR 0x5C, CHR 0x0A, CHR 0xE9]),
            (''category'', ''General'')]
     = [''name'', ''honorific'', ''profile_url'', ''title'', ''category'']
   \<and> load_data (save_to_json
        [[(''name'', ''A Lee''), (''honorific'', ''Dr''), (''profile_url'', ''N/A''),
          (''title'', [CHR 0x22, CHR ''A'', CHR ''I'', CHR 0x22, CHR 0x5C, CHR 0x0A, CHR 0xE9]),
          (''category'', ''General'')],
         [(''name'', ''B Ng''), (''honorific'', ''''), (''profile_url'', ''https://cis.unimelb.edu.au/b''),
          (''title'', ''N/A''), (''category'', ''Staff'')]]
        ''people_data.json'' Map.empty)
     = Inr (DataFrame [''name'', ''honorific'', ''profile_url'', ''title'', ''category'']
         [[Some ''A Lee'', Some ''Dr'', Some ''N/A'',
           Some [CHR 0x22, CHR ''A'', CHR ''I'', CHR 0x22, CHR 0x5C, CHR 0x0A, CHR 0xE9],
           Some ''General''],
          [Some ''B Ng'', Some '''', Some ''https://cis.unimelb.edu.au/b'', Some ''N/A'',
           Some ''Staff'']])
   \<and> iterencode_list [[(''k'', [CHR ''v'', CHR 0x22, CHR 0x0A])]]
     = ''['' @ [CHR 0x0A] @ ''  {'' @ [CHR 0x0A] @ ''    '' @ [CHR 0x22] @ ''k'' @ [CHR 0x22] @ '': ''
       @ [CHR 0x22] @ ''v'' @ [CHR 0x5C, CHR 0x22] @ [CHR 0x5C] @ ''n'' @ [CHR 0x22]
       @ [CHR 0x0A] @ ''  }'' @ [CHR 0x0A] @ '']''"
proof -
  let ?a = "[(''name'', ''A Lee''), (''honorific'', ''Dr''), (''profile_url'', ''N/A''),
          (''title'', [CHR 0x22, CHR ''A'', CHR ''I'', CHR 0x22, CHR 0x5C, CHR 0x0A, CHR 0xE9]),
          (''category'', ''General'')]"
  let ?b = "[(''name'', ''B Ng''), (''honorific'', ''''), (''profile_url'', ''https://cis.unimelb.edu.au/b''),
          (''title'', ''N/A''), (''category'', ''Staff'')]"
  have k: "map fst ?a = [''name'', ''honorific'', ''profile_url'', ''title'', ''category'']" by simp
  have h: "(\<forall>d\<in>set [?a, ?b]. map fst d = [''name'', ''honorific'', ''profile_url'', ''title'', ''category''])
      \<and> [?a, ?b] \<noteq> []" by simp
  have "load_data (save_to_json [?a, ?b] ''people_data.json'' Map.empty) =
        Inr (DataFrame [''name'', ''honorific'', ''profile_url'', ''title'', ''category'']
               (map (map (\<lambda>(k, v). Some v)) [?a, ?b]))"
    using json_round_trip[of "[?a, ?b]" Map.empty, THEN conjunct2, THEN conjunct1] h by (rule mp)
  then have l: "load_data (save_to_json [?a, ?b] ''people_data.json'' Map.empty) =
      Inr (DataFrame [''name'', ''honorific'', ''profile_url'', ''title'', ''category'']
         [[Some ''A Lee'', Some ''Dr'', Some ''N/A'',
           Some [CHR 0x22, CHR ''A'', CHR ''I'', CHR 0x22, CHR 0x5C, CHR 0x0A, CHR 0xE9],
           Some ''General''],
          [Some ''B Ng'', Some '''', Some ''https://cis.unimelb.edu.au/b'', Some ''N/A'',
           Some ''Staff'']])"
    by simp
  have t: "iterencode_list [[(''k'', [CHR ''v'', CHR 0x22, CHR 0x0A])]]
     = ''['' @ [CHR 0x0A] @ ''  {'' @ [CHR 0x0A] @ ''    '' @ [CHR 0x22] @ ''k'' @ [CHR 0x22] @ '': ''
       @ [CHR 0x22] @ ''v'' @ [CHR 0x5C, CHR 0x22] @ [CHR 0x5C] @ ''n'' @ [CHR 0x22]
       @ [CHR 0x0A] @ ''  }'' @ [CHR 0x0A] @ '']''"
    by code_simp
  show ?thesis using k l t by (intro conjI)
qed

end
